theory Spec2Isabelle
  imports Main "HOL-Library.Word"
begin

unbundle bit_operations_syntax

section \<open>The egress path of libwebsockets: lib/output.c\<close>

text \<open>
  A shallow embedding of \<^verbatim>\<open>lws_issue_raw\<close>, \<^verbatim>\<open>lws_write\<close> and the payload
  assembly of \<^verbatim>\<open>lws_serve_http_file_fragment\<close>.  Pointers are addresses into one
  byte-addressed memory; the external collaborators of the file (transport, allocator,
  extension callbacks, random source, protocol callbacks) are functions of an
  environment record, each given the current world so that its answer may change from
  call to call.  Logging (\<^verbatim>\<open>lwsl_*\<close>), statistics counters
  (\<^verbatim>\<open>lws_stats_atomic_bump\<close>, \<^verbatim>\<open>conn_stats\<close>, \<^verbatim>\<open>access_log\<close>), latency
  probes and timers only write to fields that output.c never reads; they are left out.
\<close>

subsection \<open>Machine integers and memory\<close>

type_synonym addr = int
type_synonym byte = "8 word"
type_synonym memory = "addr \<Rightarrow> byte"

text \<open>\<^verbatim>\<open>(unsigned int)x\<close> for a signed \<open>x\<close>, and \<^verbatim>\<open>(int)x\<close> for an unsigned or
  \<^verbatim>\<open>size_t\<close> value: the low 32 bits, read as unsigned or as two's complement.\<close>

definition cast_uint :: "int \<Rightarrow> nat" where
  "cast_uint i = nat (i mod 2 ^ 32)"

definition cast_int :: "nat \<Rightarrow> int" where
  "cast_int n = (if n mod 2 ^ 32 < 2 ^ 31 then int (n mod 2 ^ 32) else int (n mod 2 ^ 32) - 2 ^ 32)"

definition add_u32 :: "nat \<Rightarrow> nat \<Rightarrow> nat" where
  "add_u32 a b = (a + b) mod 2 ^ 32"

definition sub_u32 :: "nat \<Rightarrow> nat \<Rightarrow> nat" where
  "sub_u32 a b = nat ((int a - int b) mod 2 ^ 32)"

text \<open>\<^verbatim>\<open>memcpy\<close>: the source bytes are read from the memory before the call.  C leaves
  the call undefined when the two regions overlap; the callers below test
  \<open>regions_overlap\<close> first.\<close>

definition memcpy :: "memory \<Rightarrow> addr \<Rightarrow> addr \<Rightarrow> nat \<Rightarrow> memory" where
  "memcpy m dst src k = (\<lambda>a. if dst \<le> a \<and> a < dst + int k then m (src + (a - dst)) else m a)"

definition regions_overlap :: "addr \<Rightarrow> addr \<Rightarrow> nat \<Rightarrow> bool" where
  "regions_overlap dst src k = (0 < k \<and> dst < src + int k \<and> src < dst + int k)"

definition read_bytes :: "memory \<Rightarrow> addr \<Rightarrow> nat \<Rightarrow> byte list" where
  "read_bytes m a k = map (\<lambda>i. m (a + int i)) [0..<k]"

fun write_bytes :: "memory \<Rightarrow> addr \<Rightarrow> byte list \<Rightarrow> memory" where
  "write_bytes m a [] = m"
| "write_bytes m a (x # xs) = write_bytes (m(a := x)) (a + 1) xs"

subsection \<open>Build configuration\<close>

text \<open>The preprocessor symbols output.c tests, and the constants it takes from
  libwebsockets.h and private-libwebsockets.h.  Neither header is part of the sources at
  hand, so the constants are parameters of the model.  The last parameter,
  \<open>mask_idx_bits\<close>, is the width in bits of the member \<^verbatim>\<open>mask_idx\<close> of \<^verbatim>\<open>wsi->ws\<close>, an
  unsigned integer that private-libwebsockets.h declares.\<close>

record lws_build =
  LP64 :: bool
  NDEBUG :: bool
  LWS_WITHOUT_EXTENSIONS :: bool
  LWS_WITH_HTTP2 :: bool
  LWS_WITH_RANGES :: bool
  LWS_PRE :: nat
  LWS_SSL_CAPABLE_ERROR :: int
  LWS_SSL_CAPABLE_MORE_SERVICE :: int
  LWS_WRITE_TEXT :: nat
  LWS_WRITE_BINARY :: nat
  LWS_WRITE_CONTINUATION :: nat
  LWS_WRITE_HTTP :: nat
  LWS_WRITE_CLOSE :: nat
  LWS_WRITE_PING :: nat
  LWS_WRITE_PONG :: nat
  LWS_WRITE_HTTP_FINAL :: nat
  LWS_WRITE_HTTP_HEADERS :: nat
  LWS_WRITE_HTTP_HEADERS_CONTINUATION :: nat
  LWS_WRITE_NO_FIN :: nat
  LWS_WRITE_H2_STREAM_END :: nat
  LWS_H2_FRAME_HEADER_LENGTH :: nat
  mask_idx_bits :: nat

text \<open>\<^verbatim>\<open>size_t\<close> is 64 bits wide under \<^verbatim>\<open>__LP64__\<close> and 32 bits otherwise.\<close>

definition size_bits :: "lws_build \<Rightarrow> nat" where
  "size_bits b = (if LP64 b then 64 else 32)"

definition cast_size :: "lws_build \<Rightarrow> int \<Rightarrow> nat" where
  "cast_size b i = nat (i mod 2 ^ size_bits b)"

definition sub_size :: "lws_build \<Rightarrow> nat \<Rightarrow> nat \<Rightarrow> nat" where
  "sub_size b a c = nat ((int a - int c) mod 2 ^ size_bits b)"

subsection \<open>Connection state\<close>

text \<open>The members of \<^verbatim>\<open>enum lws_connection_states\<close> and of the connection modes that
  output.c names; every other member is \<open>LWSS_other\<close> or \<open>LWSCM_other\<close>.\<close>

datatype lws_connection_states =
    LWSS_HTTP
  | LWSS_FLUSHING_SEND_BEFORE_CLOSE
  | LWSS_RETURNED_CLOSE_ALREADY
  | LWSS_WAITING_TO_SEND_CLOSE_NOTIFICATION
  | LWSS_AWAITING_CLOSE_ACK
  | LWSS_other nat

datatype lws_connection_modes =
    LWSCM_WS_CLIENT
  | LWSCM_HTTP2_SERVING
  | LWSCM_HTTP2_WS_SERVING
  | LWSCM_other nat

record lws_protocols =
  tx_packet_size :: nat
  rx_buffer_size :: nat

text \<open>\<^verbatim>\<open>wsi->ws\<close>; \<open>mask_ws\<close> is its member \<^verbatim>\<open>mask[4]\<close>.  \<open>mask_idx\<close> is an unsigned
  integer of \<open>mask_idx_bits\<close> bits, kept as a \<open>nat\<close> that every increment reduces modulo
  \<open>2 ^ mask_idx_bits\<close>.\<close>

record lws_ws =
  mask_ws :: "byte list"
  mask_idx :: nat
  inside_frame :: bool
  clean_buffer :: bool
  tx_draining_ext :: bool
  tx_draining_stashed_wp :: nat
  stashed_write_pending :: bool
  stashed_write_type :: nat
  ietf_spec_revision :: nat

record lws_range =
  range_start :: nat
  range_end :: nat
  range_extent :: nat
  range_budget :: nat
  range_inside :: bool
  range_send_ctr :: nat
  range_count_ranges :: nat

text \<open>\<^verbatim>\<open>wsi->http\<close>; \<open>range_http\<close> is its member \<^verbatim>\<open>range\<close>.\<close>

record lws_http =
  filepos :: nat
  filelen :: nat
  tx_content_length :: nat
  tx_content_remain :: nat
  multipart_content_type :: string
  range_http :: lws_range

record lws_h2 =
  send_END_STREAM :: bool
  my_sid :: nat

record lws =
  could_have_pending :: bool
  state :: lws_connection_states
  mode :: lws_connection_modes
  trunc_alloc :: addr
  trunc_alloc_len :: nat
  trunc_offset :: nat
  trunc_len :: nat
  socket_is_permanently_unusable :: bool
  http2_substream :: bool
  h2_stream_carries_ws :: bool
  parent_carries_io :: bool
  sending_chunked :: bool
  interpreting :: bool
  protocol :: lws_protocols
  ws :: "lws_ws option"
  http :: lws_http
  h2 :: lws_h2

text \<open>What a call leaves behind for its caller: a returned \<^verbatim>\<open>int\<close>, the abort of
  \<^verbatim>\<open>assert(0)\<close> in a build without \<^verbatim>\<open>NDEBUG\<close>, or behaviour that C leaves undefined
  (a NULL \<^verbatim>\<open>wsi->ws\<close> dereferenced, an overlapping \<^verbatim>\<open>memcpy\<close>).\<close>

datatype outcome = Return int | Assert_failed | Undefined

text \<open>Calls that leave output.c, in the order they were made.\<close>

datatype event =
    Ssl_capable_write addr int int
  | Callback_on_writable
  | Lws_free addr
  | Lws_malloc nat addr

text \<open>The connection \<open>wsi\<close> at address \<open>wsi_ptr\<close>, the memory, the members of the
  context and of the per-thread structure that are read, and the trace of outside calls.
  The intrusive list \<^verbatim>\<open>pt->tx_draining_ext_list\<close>, linked through each connection's
  \<^verbatim>\<open>ws->tx_draining_ext_list\<close>, is the list of the connections' addresses.\<close>

record world =
  wsi :: lws
  wsi_ptr :: addr
  mem :: memory
  pt_serv_buf_size :: nat
  serv_buf :: addr
  pt_tx_draining_ext_list :: "addr list"
  trace :: "event list"

record lws_write_passthru =
  pas_buf :: addr
  pas_len :: nat
  pas_wp :: nat

text \<open>The HTTP/2 frame types and flags that \<^verbatim>\<open>lws_write\<close> hands to
  \<^verbatim>\<open>lws_h2_frame_write\<close>.\<close>

datatype h2_frame_type =
    LWS_H2_FRAME_TYPE_DATA
  | LWS_H2_FRAME_TYPE_HEADERS
  | LWS_H2_FRAME_TYPE_CONTINUATION

record h2_flags =
  LWS_H2_FLAG_END_HEADERS :: bool
  LWS_H2_FLAG_END_STREAM :: bool

text \<open>\<^verbatim>\<open>struct lws_process_html_args\<close>, as far as output.c fills it in.\<close>

record lws_process_html_args =
  args_p :: addr
  args_len :: int
  args_max_len :: nat
  args_final :: bool
  args_chunked :: bool

text \<open>The outside of output.c.  \<open>lws_malloc\<close> returns 0 for NULL.  The extension
  callbacks return their \<^verbatim>\<open>int\<close> and what they were given by reference: the buffer
  pointer, and for \<^verbatim>\<open>LWS_EXT_CB_PAYLOAD_TX\<close> the token length and the memory, where an
  extension leaves the payload it produced.  \<open>child_write_via_parent\<close> is the parent
  protocol's callback for \<^verbatim>\<open>LWS_CALLBACK_CHILD_WRITE_VIA_PARENT\<close>.  \<open>lws_get_random\<close>
  returns its count and the content of \<^verbatim>\<open>wsi->ws->mask\<close> after the call.
  \<open>lws_issue_raw_ext_access\<close> and \<open>lws_h2_frame_write\<close> belong to other files of the
  library; they return their \<^verbatim>\<open>int\<close> and the world they leave.
  \<open>lws_vfs_file_read\<close> returns its \<^verbatim>\<open>int\<close> and the bytes it stored at the pointer it was
  given, whose number is \<^verbatim>\<open>amount\<close>.  \<open>process_html\<close> is the protocol callback for
  \<^verbatim>\<open>LWS_CALLBACK_PROCESS_HTML\<close>; it returns its \<^verbatim>\<open>int\<close>, the arguments as it leaves them
  and the memory.\<close>

record lws_env =
  lws_ext_cb_packet_tx_do_send :: "world \<Rightarrow> addr \<Rightarrow> int \<Rightarrow> int \<times> addr"
  lws_ssl_capable_write :: "world \<Rightarrow> addr \<Rightarrow> int \<Rightarrow> int"
  lws_malloc :: "world \<Rightarrow> nat \<Rightarrow> addr"
  child_write_via_parent :: "world \<Rightarrow> lws_write_passthru \<Rightarrow> int \<times> world"
  lws_state_is_ws :: "lws_connection_states \<Rightarrow> bool"
  lws_ext_cb_payload_tx :: "world \<Rightarrow> addr \<Rightarrow> int \<Rightarrow> nat \<Rightarrow> int \<times> addr \<times> int \<times> memory"
  lws_get_random :: "world \<Rightarrow> int \<times> byte list"
  lws_issue_raw_ext_access :: "world \<Rightarrow> addr \<Rightarrow> nat \<Rightarrow> int \<times> world"
  lws_h2_frame_write ::
    "world \<Rightarrow> h2_frame_type \<Rightarrow> h2_flags \<Rightarrow> nat \<Rightarrow> int \<Rightarrow> addr \<Rightarrow> int \<times> world"
  lws_vfs_file_seek_cur :: "world \<Rightarrow> int \<Rightarrow> int"
  lws_h2_tx_cr_get :: "world \<Rightarrow> int"
  lws_vfs_file_read :: "world \<Rightarrow> addr \<Rightarrow> nat \<Rightarrow> int \<times> byte list"
  process_html :: "world \<Rightarrow> lws_process_html_args \<Rightarrow> int \<times> lws_process_html_args \<times> memory"

definition lws_callback_on_writable :: "world \<Rightarrow> world" where
  "lws_callback_on_writable w = w\<lparr>trace := trace w @ [Callback_on_writable]\<rparr>"

subsection \<open>lws_issue_raw\<close>

text \<open>Lines 197 to 204: the remainder \<open>buf[n..]\<close> goes to the truncation buffer.\<close>

definition truncated_store :: "world \<Rightarrow> addr \<Rightarrow> nat \<Rightarrow> nat \<Rightarrow> nat \<Rightarrow> outcome \<times> world" where
  "truncated_store w buf real_len n need =
    (let c = (wsi w)\<lparr>trunc_offset := 0, trunc_len := need mod 2 ^ 32\<rparr>;
         w1 = w\<lparr>wsi := c\<rparr>
     in if regions_overlap (trunc_alloc c) (buf + int n) need then (Undefined, w1)
        else (Return (cast_int real_len),
              lws_callback_on_writable
                (w1\<lparr>mem := memcpy (mem w1) (trunc_alloc c) (buf + int n) need\<rparr>)))"

text \<open>Label \<^verbatim>\<open>handle_truncated_send\<close>, lines 141 to 205; \<open>n\<close> is the
  \<^verbatim>\<open>unsigned int n\<close> of the source.\<close>

definition handle_truncated_send ::
  "lws_build \<Rightarrow> lws_env \<Rightarrow> world \<Rightarrow> addr \<Rightarrow> nat \<Rightarrow> nat \<Rightarrow> outcome \<times> world" where
  "handle_truncated_send b e w buf real_len n =
    (let c = wsi w in
     if trunc_len c \<noteq> 0 then
       (let c1 = c\<lparr>trunc_offset := add_u32 (trunc_offset c) n,
                    trunc_len := sub_u32 (trunc_len c) n\<rparr>;
            w1 = w\<lparr>wsi := c1\<rparr>
        in if trunc_len c1 = 0 then
             (if state c1 = LWSS_FLUSHING_SEND_BEFORE_CLOSE then (Return (- 1), w1)
              else (Return (cast_int real_len), lws_callback_on_writable w1))
           else (Return (cast_int n), lws_callback_on_writable w1))
     else if n = real_len then (Return (cast_int n), w)
     else
       (let need = sub_size b real_len n in
        if trunc_alloc c = 0 \<or> need > trunc_alloc_len c then
          (let w1 = w\<lparr>trace := trace w @ [Lws_free (trunc_alloc c)]\<rparr>;
               a = lws_malloc e w1 need;
               w2 = w1\<lparr>wsi := c\<lparr>trunc_alloc_len := need mod 2 ^ 32, trunc_alloc := a\<rparr>,
                       trace := trace w1 @ [Lws_malloc need a]\<rparr>
           in if a = 0 then (Return (- 1), w2)
              else truncated_store w2 buf real_len n need)
        else truncated_store w buf real_len n need))"

text \<open>Lines 106 to 116 (``limit sending''): the number of bytes that will be offered to
  the transport, an \<^verbatim>\<open>unsigned int\<close>.\<close>

definition limit_sending :: "lws_build \<Rightarrow> world \<Rightarrow> nat \<Rightarrow> nat" where
  "limit_sending b w len =
    (let c = wsi w;
         n0 = (if tx_packet_size (protocol c) \<noteq> 0
               then cast_uint (cast_int (tx_packet_size (protocol c)))
               else (let n = cast_uint (cast_int (rx_buffer_size (protocol c)))
                     in if n = 0 then pt_serv_buf_size w else n));
         n1 = add_u32 n0 (LWS_PRE b + 4)
     in if n1 > len then cast_uint (cast_int len) else n1)"

text \<open>Lines 103 to 139: the transport call and its three outcomes.  \<open>n\<close> is unsigned,
  so the case labels are compared as unsigned values.\<close>

definition issue_raw_socket ::
  "lws_build \<Rightarrow> lws_env \<Rightarrow> world \<Rightarrow> addr \<Rightarrow> nat \<Rightarrow> outcome \<times> world" where
  "issue_raw_socket b e w buf len =
    (let c = wsi w;
         n2 = limit_sending b w len;
         r = lws_ssl_capable_write e w buf (cast_int n2);
         w1 = w\<lparr>wsi := c\<lparr>could_have_pending := True\<rparr>,
                 trace := trace w @ [Ssl_capable_write buf (cast_int n2) r]\<rparr>;
         n = cast_uint r
     in if n = cast_uint (LWS_SSL_CAPABLE_ERROR b) then
          (Return (- 1), w1\<lparr>wsi := (wsi w1)\<lparr>socket_is_permanently_unusable := True\<rparr>\<rparr>)
        else handle_truncated_send b e w1 buf len
               (if n = cast_uint (LWS_SSL_CAPABLE_MORE_SERVICE b) then 0 else n))"

definition lws_issue_raw ::
  "lws_build \<Rightarrow> lws_env \<Rightarrow> world \<Rightarrow> addr \<Rightarrow> nat \<Rightarrow> outcome \<times> world" where
  "lws_issue_raw b e w buf len =
    (let c = wsi w in
     if could_have_pending c then (Return (- 1), w)
     else if len = 0 then (Return 0, w)
     else if state c = LWSS_FLUSHING_SEND_BEFORE_CLOSE \<and> trunc_len c = 0 then
       (Return (cast_int len), w)
     else if trunc_len c \<noteq> 0 \<and>
             (buf < trunc_alloc c \<or>
              buf > trunc_alloc c + int (trunc_len c) + int (trunc_offset c)) then
       (if NDEBUG b then (Return (- 1), w) else (Assert_failed, w))
     else if LWS_WITHOUT_EXTENSIONS b then issue_raw_socket b e w buf len
     else
       (case lws_ext_cb_packet_tx_do_send e w buf (cast_int len) of
          (m, buf') \<Rightarrow>
            if m < 0 then (Return (- 1), w)
            else if m \<noteq> 0 then handle_truncated_send b e w buf' len (cast_uint m)
            else issue_raw_socket b e w buf' len))"

text \<open>The transport calls recorded in a trace: the buffer and the length offered.\<close>

fun transport_calls :: "event list \<Rightarrow> (addr \<times> int) list" where
  "transport_calls [] = []"
| "transport_calls (Ssl_capable_write a n r # evs) = (a, n) # transport_calls evs"
| "transport_calls (ev # evs) = transport_calls evs"

fun writable_rearms :: "event list \<Rightarrow> nat" where
  "writable_rearms [] = 0"
| "writable_rearms (Callback_on_writable # evs) = Suc (writable_rearms evs)"
| "writable_rearms (ev # evs) = writable_rearms evs"

text \<open>The truncation-buffer invariant of the data model.\<close>

definition trunc_invariant :: "lws \<Rightarrow> bool" where
  "trunc_invariant c = (0 < trunc_len c \<longrightarrow> trunc_offset c + trunc_len c \<le> trunc_alloc_len c)"

text \<open>The contract of the transport: a fatal error, retry later, or a count of bytes
  accepted that does not exceed what was offered.\<close>

definition transport_contract :: "lws_build \<Rightarrow> lws_env \<Rightarrow> bool" where
  "transport_contract b e =
    (\<forall>w a n. lws_ssl_capable_write e w a n = LWS_SSL_CAPABLE_ERROR b \<or>
             lws_ssl_capable_write e w a n = LWS_SSL_CAPABLE_MORE_SERVICE b \<or>
             (0 \<le> lws_ssl_capable_write e w a n \<and> lws_ssl_capable_write e w a n \<le> n))"

subsection \<open>lws_write\<close>

text \<open>Modelled from the spec: the RFC 6455 opcodes behind the \<^verbatim>\<open>LWSWSOPC_*\<close> names, which
  private-libwebsockets.h defines.  Step 8 of the write dispatcher lists them as
  0 = continuation, 1 = text, 2 = binary, 8 = close, 9 = ping, 10 = pong.\<close>

definition LWSWSOPC_CONTINUATION :: nat where "LWSWSOPC_CONTINUATION = 0"
definition LWSWSOPC_TEXT_FRAME :: nat where "LWSWSOPC_TEXT_FRAME = 1"
definition LWSWSOPC_BINARY_FRAME :: nat where "LWSWSOPC_BINARY_FRAME = 2"
definition LWSWSOPC_CLOSE :: nat where "LWSWSOPC_CLOSE = 8"
definition LWSWSOPC_PING :: nat where "LWSWSOPC_PING = 9"
definition LWSWSOPC_PONG :: nat where "LWSWSOPC_PONG = 10"

definition set_ws :: "world \<Rightarrow> lws_ws \<Rightarrow> world" where
  "set_ws w s = w\<lparr>wsi := (wsi w)\<lparr>ws := Some s\<rparr>\<rparr>"

definition add_size :: "lws_build \<Rightarrow> nat \<Rightarrow> nat \<Rightarrow> nat" where
  "add_size b a c = (a + c) mod 2 ^ size_bits b"

text \<open>The local variables of \<^verbatim>\<open>lws_write\<close> when control reaches the label
  \<^verbatim>\<open>send_raw\<close>.\<close>

record dispatch =
  d_world :: world
  d_buf :: addr
  d_len :: nat
  d_pre :: nat
  d_wp :: nat
  d_wp1f :: nat
  d_orig_len :: nat

text \<open>Lines 251 to 270: a connection on the drain list leaves it, and \<open>wp\<close> becomes a
  continuation with the flags of the stashed \<open>wp\<close>.\<close>

definition lws_write_draining :: "lws_build \<Rightarrow> lws_env \<Rightarrow> world \<Rightarrow> nat \<Rightarrow> world \<times> nat" where
  "lws_write_draining b e w wp =
    (case ws (wsi w) of
       None \<Rightarrow> (w, wp)
     | Some s \<Rightarrow>
         if tx_draining_ext s \<and> lws_state_is_ws e (state (wsi w)) then
           ((set_ws w (s\<lparr>tx_draining_ext := False\<rparr>))
              \<lparr>pt_tx_draining_ext_list := remove1 (wsi_ptr w) (pt_tx_draining_ext_list w)\<rparr>,
            (tx_draining_stashed_wp s AND 0xc0) OR LWS_WRITE_CONTINUATION b)
         else (w, wp))"

text \<open>Lines 274 to 277, and the state gate of lines 282 to 286.\<close>

definition is_http_wp :: "lws_build \<Rightarrow> nat \<Rightarrow> bool" where
  "is_http_wp b wp1f =
    (wp1f = LWS_WRITE_HTTP b \<or> wp1f = LWS_WRITE_HTTP_FINAL b \<or>
     wp1f = LWS_WRITE_HTTP_HEADERS_CONTINUATION b \<or> wp1f = LWS_WRITE_HTTP_HEADERS b)"

definition ws_gate_closed :: "lws_build \<Rightarrow> lws_env \<Rightarrow> lws \<Rightarrow> nat \<Rightarrow> bool" where
  "ws_gate_closed b e c wp1f =
    (\<not> lws_state_is_ws e (state c) \<and>
     ((state c \<noteq> LWSS_RETURNED_CLOSE_ALREADY \<and>
       state c \<noteq> LWSS_WAITING_TO_SEND_CLOSE_NOTIFICATION \<and>
       state c \<noteq> LWSS_AWAITING_CLOSE_ACK) \<or>
      wp1f \<noteq> LWS_WRITE_CLOSE b))"

text \<open>Lines 323 to 351: the extension chain is offered the payload.  The result is the
  world, \<^verbatim>\<open>wsi->ws\<close>, \<open>wp\<close>, and the token and its length.\<close>

definition payload_tx_ext ::
  "lws_build \<Rightarrow> lws_env \<Rightarrow> world \<Rightarrow> lws_ws \<Rightarrow> addr \<Rightarrow> nat \<Rightarrow> nat \<Rightarrow>
     (outcome \<times> world) + (world \<times> lws_ws \<times> nat \<times> addr \<times> int)" where
  "payload_tx_ext b e w s buf len wp =
    (if LWS_WITHOUT_EXTENSIONS b then Inr (w, s, wp, buf, cast_int len)
     else
       (case lws_ext_cb_payload_tx e (set_ws w s) buf (cast_int len) wp of
          (n, tok, tok_len, m) \<Rightarrow>
            let w1 = w\<lparr>mem := m\<rparr> in
            if n < 0 then Inl (Return (- 1), set_ws w1 s)
            else if n \<noteq> 0 \<and> tok_len \<noteq> 0 then
              Inr (lws_callback_on_writable
                     (w1\<lparr>pt_tx_draining_ext_list := wsi_ptr w1 # pt_tx_draining_ext_list w1\<rparr>),
                   s\<lparr>tx_draining_ext := True, tx_draining_stashed_wp := wp\<rparr>,
                   wp OR LWS_WRITE_NO_FIN b, tok, tok_len)
            else Inr (w1, s, wp, tok, tok_len)))"

text \<open>Lines 299 to 389: from \<^verbatim>\<open>clean_buffer = 1\<close> to the test for a NULL buffer.  The
  result is the world with \<^verbatim>\<open>wsi->ws\<close> written back, and \<open>buf\<close>, \<open>len\<close>, \<open>wp\<close>,
  \<open>wp1f\<close>.\<close>

definition lws_write_payload_tx ::
  "lws_build \<Rightarrow> lws_env \<Rightarrow> world \<Rightarrow> lws_ws \<Rightarrow> addr \<Rightarrow> nat \<Rightarrow> nat \<Rightarrow> nat \<Rightarrow>
     (outcome \<times> world) + (world \<times> lws_ws \<times> addr \<times> nat \<times> nat \<times> nat)" where
  "lws_write_payload_tx b e w s0 buf len wp0 wp1f0 =
    (let s = s0\<lparr>clean_buffer := True\<rparr> in
     case (if wp0 = LWS_WRITE_PING b \<or> wp0 = LWS_WRITE_PONG b \<or> wp0 = LWS_WRITE_CLOSE b
           then Inr (w, s, wp0, wp1f0, buf, cast_int len)
           else (case payload_tx_ext b e w s buf len wp0 of
                   Inl r \<Rightarrow> Inl r
                 | Inr (w1, s1, wp1, tok, tok_len) \<Rightarrow>
                     if tok_len \<noteq> 0 \<and> stashed_write_pending s1 then
                       Inr (w1, s1\<lparr>stashed_write_pending := False\<rparr>,
                            (wp1 AND 0xc0) OR stashed_write_type s1,
                            ((wp1 AND 0xc0) OR stashed_write_type s1) AND 0x1f, tok, tok_len)
                     else Inr (w1, s1, wp1, wp1f0, tok, tok_len))) of
       Inl r \<Rightarrow> Inl r
     | Inr (w1, s1, wp, wp1f, tok, tok_len) \<Rightarrow>
         if buf \<noteq> tok \<and> len \<noteq> 0 \<and> tok_len = 0 then
           Inl (Return (cast_int len),
                set_ws w1 (s1\<lparr>stashed_write_type :=
                                (if stashed_write_pending s1 then stashed_write_type s1
                                 else wp AND 0x3f),
                              stashed_write_pending := True\<rparr>))
         else
           (let s2 = (if buf \<noteq> tok then s1\<lparr>clean_buffer := False\<rparr> else s1) in
            if tok = 0 then Inl (Return (- 1), set_ws w1 s2)
            else Inr (set_ws w1 s2, s2, tok, cast_size b tok_len, wp, wp1f)))"

text \<open>Lines 399 to 422: the frame opcode for \<^verbatim>\<open>wp & 0xf\<close>; \<open>None\<close> is the
  \<^verbatim>\<open>default\<close> label.\<close>

definition ws_opcode :: "lws_build \<Rightarrow> nat \<Rightarrow> nat option" where
  "ws_opcode b wp =
    (let op = wp AND 0xf in
     if op = LWS_WRITE_TEXT b then Some LWSWSOPC_TEXT_FRAME
     else if op = LWS_WRITE_BINARY b then Some LWSWSOPC_BINARY_FRAME
     else if op = LWS_WRITE_CONTINUATION b then Some LWSWSOPC_CONTINUATION
     else if op = LWS_WRITE_CLOSE b then Some LWSWSOPC_CLOSE
     else if op = LWS_WRITE_PING b then Some LWSWSOPC_PING
     else if op = LWS_WRITE_PONG b then Some LWSWSOPC_PONG
     else None)"

text \<open>Lines 392 to 458, \<^verbatim>\<open>case 13\<close>: the header is written below \<open>buf\<close>.  The result is
  the memory, \<open>pre\<close> and \<open>dropmask\<close> (0 for NULL); \<open>None\<close> is the return of \<open>-1\<close> for an
  unknown opcode.\<close>

definition ws_frame_header ::
  "lws_build \<Rightarrow> bool \<Rightarrow> memory \<Rightarrow> addr \<Rightarrow> nat \<Rightarrow> nat \<Rightarrow> (memory \<times> nat \<times> addr) option" where
  "ws_frame_header b masked7 m buf len wp =
    (let pre0 = (if masked7 then 4 else 0);
         dropmask = (if masked7 then buf - 4 else 0);
         is_masked_bit = (if masked7 then 0x80 else 0)
     in case ws_opcode b wp of
          None \<Rightarrow> None
        | Some opc \<Rightarrow>
            let n = (if wp AND LWS_WRITE_NO_FIN b = 0 then opc OR 0x80 else opc) in
            if len < 126 then
              (let pre = pre0 + 2 in
               Some (m(buf - int pre := of_nat n,
                       buf - int pre + 1 := of_nat (len OR is_masked_bit)),
                     pre, dropmask))
            else if len < 65536 then
              (let pre = pre0 + 4 in
               Some (m(buf - int pre := of_nat n,
                       buf - int pre + 1 := of_nat (126 OR is_masked_bit),
                       buf - int pre + 2 := of_nat (drop_bit 8 len),
                       buf - int pre + 3 := of_nat len),
                     pre, dropmask))
            else
              (let pre = pre0 + 10 in
               Some (m(buf - int pre := of_nat n,
                       buf - int pre + 1 := of_nat (127 OR is_masked_bit),
                       buf - int pre + 2 := (if LP64 b then of_nat (drop_bit 56 len AND 0x7f) else 0),
                       buf - int pre + 3 := (if LP64 b then of_nat (drop_bit 48 len) else 0),
                       buf - int pre + 4 := (if LP64 b then of_nat (drop_bit 40 len) else 0),
                       buf - int pre + 5 := (if LP64 b then of_nat (drop_bit 32 len) else 0),
                       buf - int pre + 6 := of_nat (drop_bit 24 len),
                       buf - int pre + 7 := of_nat (drop_bit 16 len),
                       buf - int pre + 8 := of_nat (drop_bit 8 len),
                       buf - int pre + 9 := of_nat len),
                     pre, dropmask)))"

text \<open>\<^verbatim>\<open>lws_0405_frame_mask_generate\<close>, lines 24 to 41.\<close>

definition lws_0405_frame_mask_generate :: "lws_env \<Rightarrow> world \<Rightarrow> lws_ws \<Rightarrow> int \<times> lws_ws" where
  "lws_0405_frame_mask_generate e w s =
    (case lws_get_random e w of
       (n, bytes) \<Rightarrow>
         if n \<noteq> 4 then (1, s\<lparr>mask_ws := bytes\<rparr>)
         else (0, s\<lparr>mask_ws := bytes, mask_idx := 0\<rparr>))"

text \<open>The loop of lines 480 to 482, from \<open>n\<close> up to the limit \<^verbatim>\<open>(int)len + 4\<close>, on the
  memory and \<open>mask_idx\<close>, which is \<open>k\<close> bits wide: \<^verbatim>\<open>mask_idx++ & 3\<close> reads the index
  and stores its successor, which wraps to 0 after \<open>2 ^ k - 1\<close>.\<close>

function frame_mask_loop ::
  "nat \<Rightarrow> byte list \<Rightarrow> addr \<Rightarrow> int \<Rightarrow> int \<Rightarrow> memory \<times> nat \<Rightarrow> memory \<times> nat" where
  "frame_mask_loop k msk dropmask n lim (m, idx) =
    (if n < lim then
       frame_mask_loop k msk dropmask (n + 1) lim
         (m(dropmask + n := m (dropmask + n) XOR msk ! (idx AND 3)), (idx + 1) mod 2 ^ k)
     else (m, idx))"
  by pat_completeness auto
termination
  by (relation "measure (\<lambda>(k, msk, dropmask, n, lim, st). nat (lim - n))") auto

text \<open>Label \<^verbatim>\<open>do_more_inside_frame\<close>, lines 462 to 487.\<close>

definition do_more_inside_frame ::
  "lws_build \<Rightarrow> lws_env \<Rightarrow> bool \<Rightarrow> world \<Rightarrow> lws_ws \<Rightarrow> addr \<Rightarrow> nat \<Rightarrow> (outcome \<times> world) + world" where
  "do_more_inside_frame b e masked7 w s dropmask len =
    (if masked7 then
       (case (if \<not> inside_frame s then lws_0405_frame_mask_generate e w s else (0, s)) of
          (r, s1) \<Rightarrow>
            if r \<noteq> 0 then Inl (Return (- 1), set_ws w s1)
            else if dropmask \<noteq> 0 then
              (case frame_mask_loop (mask_idx_bits b) (mask_ws s1) dropmask 4 (cast_int len + 4)
                      (mem w, mask_idx s1) of
                 (m, idx) \<Rightarrow>
                   Inr ((set_ws w (s1\<lparr>mask_idx := idx\<rparr>))
                          \<lparr>mem := write_bytes m dropmask (take 4 (mask_ws s1))\<rparr>))
            else Inr (set_ws w s1))
     else Inr (set_ws w s))"

text \<open>Lines 207 to 487: \<^verbatim>\<open>lws_write\<close> up to the label \<^verbatim>\<open>send_raw\<close>.  \<open>Inl\<close> is a
  return before the label, \<open>Inr\<close> the state in which the label is reached.\<close>

definition lws_write_assemble ::
  "lws_build \<Rightarrow> lws_env \<Rightarrow> world \<Rightarrow> addr \<Rightarrow> nat \<Rightarrow> nat \<Rightarrow> (outcome \<times> world) + dispatch" where
  "lws_write_assemble b e w0 buf len wp0 =
    (let masked7 = (mode (wsi w0) = LWSCM_WS_CLIENT) in
     if parent_carries_io (wsi w0) then
       (case child_write_via_parent e w0 \<lparr>pas_buf = buf, pas_len = len, pas_wp = wp0\<rparr> of
          (r, w1) \<Rightarrow> if r \<noteq> 0 then Inl (Return 1, w1) else Inl (Return (cast_int len), w1))
     else if cast_int len < 0 then Inl (Return (- 1), w0)
     else
       (case lws_write_draining b e w0 wp0 of
          (w, wp) \<Rightarrow>
            let wp1f = wp AND 0x1f in
            if is_http_wp b wp1f then
              Inr \<lparr>d_world = w, d_buf = buf, d_len = len, d_pre = 0, d_wp = wp, d_wp1f = wp1f,
                   d_orig_len = len\<rparr>
            else if ws_gate_closed b e (wsi w) wp1f then Inl (Return 0, w)
            else
              (case ws (wsi w) of
                 None \<Rightarrow> Inl (Undefined, w)
               | Some s \<Rightarrow>
                   if inside_frame s then
                     (case do_more_inside_frame b e masked7 w s 0 len of
                        Inl r \<Rightarrow> Inl r
                      | Inr w1 \<Rightarrow>
                          Inr \<lparr>d_world = w1, d_buf = buf, d_len = len, d_pre = 0, d_wp = wp,
                               d_wp1f = wp1f, d_orig_len = len\<rparr>)
                   else
                     (case lws_write_payload_tx b e w s buf len wp wp1f of
                        Inl r \<Rightarrow> Inl r
                      | Inr (w1, s1, buf1, len1, wp1, wp1f1) \<Rightarrow>
                          (case (if ietf_spec_revision s1 = 13
                                 then ws_frame_header b masked7 (mem w1) buf1 len1 wp1
                                 else Some (mem w1, 0, 0)) of
                             None \<Rightarrow> Inl (Return (- 1), w1)
                           | Some (m, pre, dropmask) \<Rightarrow>
                               (case do_more_inside_frame b e masked7 (w1\<lparr>mem := m\<rparr>) s1
                                       dropmask len1 of
                                  Inl r \<Rightarrow> Inl r
                                | Inr w2 \<Rightarrow>
                                    Inr \<lparr>d_world = w2, d_buf = buf1, d_len = len1, d_pre = pre,
                                         d_wp = wp1, d_wp1f = wp1f1, d_orig_len = len\<rparr>))))))"

text \<open>Lines 509 to 562: a connection in an HTTP/2 serving mode wraps the bytes in an
  HTTP/2 frame.\<close>

definition lws_write_h2 :: "lws_build \<Rightarrow> lws_env \<Rightarrow> dispatch \<Rightarrow> outcome \<times> world" where
  "lws_write_h2 b e d =
    (let w = d_world d; c = wsi w; wp = d_wp d; wp1f = d_wp1f d;
         no_fin = (wp AND LWS_WRITE_NO_FIN b \<noteq> 0);
         stream_end = (wp AND LWS_WRITE_H2_STREAM_END b \<noteq> 0);
         st0 = (LWS_H2_FRAME_TYPE_DATA,
                \<lparr>LWS_H2_FLAG_END_HEADERS = False, LWS_H2_FLAG_END_STREAM = False\<rparr>,
                send_END_STREAM (h2 c));
         hdr = (\<lambda>ty (n, fl, es).
                  let fl1 = (if no_fin then fl
                             else \<lparr>LWS_H2_FLAG_END_HEADERS = True, LWS_H2_FLAG_END_STREAM = False\<rparr>)
                  in if es \<or> stream_end then (ty, fl1\<lparr>LWS_H2_FLAG_END_STREAM := True\<rparr>, True)
                     else (ty, fl1, es));
         st1 = (if wp1f = LWS_WRITE_HTTP_HEADERS b then hdr LWS_H2_FRAME_TYPE_HEADERS st0 else st0);
         st2 = (if wp1f = LWS_WRITE_HTTP_HEADERS_CONTINUATION b
                then hdr LWS_H2_FRAME_TYPE_CONTINUATION st1 else st1);
         body = ((wp1f = LWS_WRITE_HTTP b \<or> wp1f = LWS_WRITE_HTTP_FINAL b) \<and>
                 tx_content_length (http c) \<noteq> 0);
         remain = (if body then nat ((int (tx_content_remain (http c)) - int (d_len d)) mod 2 ^ 64)
                   else tx_content_remain (http c));
         final = (body \<and> remain = 0);
         wp' = (if final then LWS_WRITE_HTTP_FINAL b else wp);
         wp1f' = (if final then LWS_WRITE_HTTP_FINAL b AND 0x1f else wp1f)
     in case st2 of
          (n, fl, es) \<Rightarrow>
            let end_stream = (wp1f' = LWS_WRITE_HTTP_FINAL b \<or>
                              wp' AND LWS_WRITE_H2_STREAM_END b \<noteq> 0);
                fl' = (if end_stream then fl\<lparr>LWS_H2_FLAG_END_STREAM := True\<rparr> else fl);
                c' = c\<lparr>http := (http c)\<lparr>tx_content_remain := remain\<rparr>,
                       h2 := (h2 c)\<lparr>send_END_STREAM := (es \<or> end_stream)\<rparr>\<rparr>
            in case lws_h2_frame_write e (w\<lparr>wsi := c'\<rparr>) n fl' (my_sid (h2 c))
                      (cast_int (d_len d) + int (d_pre d)) (d_buf d - int (d_pre d)) of
                 (r, w1) \<Rightarrow> (Return r, w1))"

text \<open>Label \<^verbatim>\<open>send_raw\<close>, lines 489 to 607.\<close>

definition lws_write_send_raw :: "lws_build \<Rightarrow> lws_env \<Rightarrow> dispatch \<Rightarrow> outcome \<times> world" where
  "lws_write_send_raw b e d =
    (let w = d_world d; c = wsi w; wp1f = d_wp1f d;
         direct =
           (if wp1f = LWS_WRITE_TEXT b \<or> wp1f = LWS_WRITE_BINARY b \<or>
               wp1f = LWS_WRITE_CONTINUATION b
            then h2_stream_carries_ws c
            else (wp1f = LWS_WRITE_CLOSE b \<or> wp1f = LWS_WRITE_HTTP b \<or>
                  wp1f = LWS_WRITE_HTTP_FINAL b \<or> wp1f = LWS_WRITE_HTTP_HEADERS b \<or>
                  wp1f = LWS_WRITE_HTTP_HEADERS_CONTINUATION b \<or>
                  wp1f = LWS_WRITE_PONG b \<or> wp1f = LWS_WRITE_PING b))
     in if direct then
          (if LWS_WITH_HTTP2 b \<and>
              (mode c = LWSCM_HTTP2_SERVING \<or> mode c = LWSCM_HTTP2_WS_SERVING)
           then lws_write_h2 b e d
           else lws_issue_raw b e w (d_buf d - int (d_pre d)) (add_size b (d_len d) (d_pre d)))
        else
          (case lws_issue_raw_ext_access e w (d_buf d - int (d_pre d))
                  (add_size b (d_len d) (d_pre d)) of
             (n, w1) \<Rightarrow>
               (case ws (wsi w1) of
                  None \<Rightarrow> (Undefined, w1)
                | Some s \<Rightarrow>
                    if n \<le> 0 then (Return n, set_ws w1 (s\<lparr>inside_frame := True\<rparr>))
                    else if n = cast_int (d_len d) + int (d_pre d) then
                      (Return (cast_int (d_orig_len d)), set_ws w1 (s\<lparr>inside_frame := False\<rparr>))
                    else (Return (n - int (d_pre d)), set_ws w1 (s\<lparr>inside_frame := True\<rparr>)))))"

definition lws_write ::
  "lws_build \<Rightarrow> lws_env \<Rightarrow> world \<Rightarrow> addr \<Rightarrow> nat \<Rightarrow> nat \<Rightarrow> outcome \<times> world" where
  "lws_write b e w buf len wp =
    (case lws_write_assemble b e w buf len wp of
       Inl r \<Rightarrow> r
     | Inr d \<Rightarrow> lws_write_send_raw b e d)"

subsection \<open>lws_serve_http_file_fragment: the payload of one pass\<close>

text \<open>Modelled from the spec: \<^verbatim>\<open>lws_snprintf\<close> is defined in libwebsockets.c, which is not
  among the sources, and the spec does not describe it.  It is given the contract of C's
  \<^verbatim>\<open>vsnprintf\<close>, which it wraps, with the returned length clamped to the size given: at most
  that size less one bytes of the formatted text are stored, then a NUL byte.  The result is the
  bytes stored and the \<^verbatim>\<open>int\<close> returned.\<close>

definition lws_snprintf :: "nat \<Rightarrow> byte list \<Rightarrow> byte list \<times> int" where
  "lws_snprintf sz txt =
    (if sz = 0 then ([], 0)
     else (take (sz - 1) txt @ [0],
           if sz \<le> length txt then int sz else int (length txt)))"

definition bytes_of :: "string \<Rightarrow> byte list" where
  "bytes_of cs = map (\<lambda>c. of_nat (of_char c)) cs"

text \<open>\<^verbatim>\<open>%llu\<close>: a number in decimal digits.\<close>

fun decimal :: "nat \<Rightarrow> byte list" where
  "decimal n = (if n < 10 then [of_nat (48 + n)] else decimal (n div 10) @ [of_nat (48 + n mod 10)])"

definition crlf :: "byte list" where
  "crlf = [0x0d, 0x0a]"

text \<open>The format of lines 661 to 664 with its arguments, and the trailing boundary of line
  759.\<close>

definition part_header :: "lws_http \<Rightarrow> byte list" where
  "part_header h =
    bytes_of ''_lws'' @ crlf @
    bytes_of ''Content-Type: '' @ bytes_of (multipart_content_type h) @ crlf @
    bytes_of ''Content-Range: bytes '' @ decimal (range_start (range_http h)) @ bytes_of ''-'' @
      decimal (range_end (range_http h)) @ bytes_of ''/'' @
      decimal (range_extent (range_http h)) @ crlf @ crlf"

definition trailing_boundary :: "byte list" where
  "trailing_boundary = bytes_of ''_lws'' @ crlf"

text \<open>Arithmetic on \<^verbatim>\<open>lws_filepos_t\<close>, an unsigned 64-bit integer, and its reading as the
  signed \<^verbatim>\<open>lws_fileofs_t\<close>.\<close>

definition sub_u64 :: "nat \<Rightarrow> nat \<Rightarrow> nat" where
  "sub_u64 a c = nat ((int a - int c) mod 2 ^ 64)"

definition cast_u64 :: "int \<Rightarrow> nat" where
  "cast_u64 i = nat (i mod 2 ^ 64)"

definition cast_int64 :: "nat \<Rightarrow> int" where
  "cast_int64 n = (if n mod 2 ^ 64 < 2 ^ 63 then int (n mod 2 ^ 64) else int (n mod 2 ^ 64) - 2 ^ 64)"

text \<open>Where one pass of the loop body gets to, from line 635 to the call of line 763,
  once no truncated send is pending: \<^verbatim>\<open>goto file_had_it\<close>, the \<^verbatim>\<open>return 0\<close> for no
  transmit credit, the label \<^verbatim>\<open>all_sent\<close> (the file position is at the end, or \<open>n\<close> is 0
  and the block of the call is skipped), or the call \<^verbatim>\<open>lws_write(wsi, p, n, wp)\<close> with
  \<^verbatim>\<open>amount\<close> bytes read from the file.\<close>

datatype pump_step =
    File_had_it world
  | No_tx_credit world
  | All_sent world
  | Write_fragment world addr int nat nat

text \<open>Lines 645 to 675: a new range is entered.  The result is the world, \<open>n\<close> and \<open>p\<close>.\<close>

definition range_enter :: "lws_build \<Rightarrow> lws_env \<Rightarrow> world \<Rightarrow> addr \<Rightarrow> (world \<times> int \<times> addr) option" where
  "range_enter b e w pstart =
    (let c = wsi w; h = http c; r = range_http h in
     if LWS_WITH_RANGES b \<and> range_count_ranges r \<noteq> 0 \<and> \<not> range_inside r then
       (if lws_vfs_file_seek_cur e w (cast_int64 (sub_u64 (range_start r) (filepos h))) < 0
        then None
        else
          (let (m, n) =
                 (if range_count_ranges r > 1 then
                    (case lws_snprintf
                            (sub_u32 (pt_serv_buf_size w) (LWS_H2_FRAME_HEADER_LENGTH b))
                            (part_header h) of
                       (bs, k) \<Rightarrow> (write_bytes (mem w) pstart bs, k))
                  else (mem w, 0));
               r' = r\<lparr>range_budget := (sub_u64 (range_end r) (range_start r) + 1) mod 2 ^ 64,
                      range_inside := True\<rparr>
           in Some (w\<lparr>wsi := c\<lparr>http := h\<lparr>filepos := range_start r, range_http := r'\<rparr>\<rparr>,
                      mem := m\<rparr>,
                    n, pstart + n)))
     else Some (w, 0, pstart))"

text \<open>Lines 678 to 719: how many bytes to read, a \<^verbatim>\<open>lws_filepos_t\<close>; \<open>None\<close> is the
  \<^verbatim>\<open>return 0\<close> of line 696.\<close>

definition fragment_poss :: "lws_build \<Rightarrow> lws_env \<Rightarrow> world \<Rightarrow> int \<Rightarrow> nat option" where
  "fragment_poss b e w n =
    (let c = wsi w; h = http c; r = range_http h;
         poss0 = cast_uint (int (pt_serv_buf_size w) - n - int (LWS_H2_FRAME_HEADER_LENGTH b));
         poss1 = (if tx_content_length h \<noteq> 0 \<and> poss0 > tx_content_remain h
                  then tx_content_remain h else poss0);
         poss2 = (if tx_packet_size (protocol c) \<noteq> 0 \<and> poss1 > tx_packet_size (protocol c)
                  then tx_packet_size (protocol c) else poss1);
         ranges = (\<lambda>poss.
                     if LWS_WITH_RANGES b \<and> range_count_ranges r \<noteq> 0 then
                       (let poss' = (if range_count_ranges r > 1 then sub_u64 poss 7 else poss)
                        in if poss' > range_budget r then range_budget r else poss')
                     else poss);
         chunked = (\<lambda>poss. if sending_chunked c then sub_u64 poss (10 + 128) else poss)
     in if LWS_WITH_HTTP2 b then
          (let m = lws_h2_tx_cr_get e w in
           if m = 0 then None
           else Some (chunked (ranges (if cast_u64 m < poss2 then cast_u64 m else poss2))))
        else Some (chunked (ranges poss2)))"

text \<open>Lines 635 to 767.\<close>

definition file_fragment_payload :: "lws_build \<Rightarrow> lws_env \<Rightarrow> world \<Rightarrow> pump_step" where
  "file_fragment_payload b e w0 =
    (if filepos (http (wsi w0)) = filelen (http (wsi w0)) then All_sent w0
     else
       (let pstart = serv_buf w0 + int (LWS_H2_FRAME_HEADER_LENGTH b) in
        case range_enter b e w0 pstart of
          None \<Rightarrow> File_had_it w0
        | Some (w1, n1, p1) \<Rightarrow>
            (case fragment_poss b e w1 n1 of
               None \<Rightarrow> No_tx_credit w1
             | Some poss \<Rightarrow>
                 (let c = wsi w1; h = http c; r = range_http h;
                      p2 = (if sending_chunked c then p1 + 10 else p1)
                  in case lws_vfs_file_read e w1 p2 poss of
                       (rc, bytes) \<Rightarrow>
                         let amount = length bytes;
                             w2 = w1\<lparr>mem := write_bytes (mem w1) p2 bytes\<rparr>
                         in if rc < 0 then File_had_it w2
                            else
                              (let n2 = (if sending_chunked c then cast_int amount
                                         else (p2 - pstart) + cast_int amount)
                               in if n2 = 0 then All_sent w2
                                  else
                                    (case (if interpreting c then
                                             (case process_html e w2
                                                     \<lparr>args_p = p2, args_len = n2,
                                                      args_max_len = add_u32 (cast_uint (int poss)) 128,
                                                      args_final = (cast_u64 (int (filepos h) + n2) = filelen h),
                                                      args_chunked = sending_chunked c\<rparr> of
                                                (ret, args, m) \<Rightarrow>
                                                  if ret < 0 then None
                                                  else Some (w2\<lparr>mem := m\<rparr>, args_len args, args_p args))
                                           else Some (w2, n2, pstart)) of
                                       None \<Rightarrow> File_had_it w2
                                     | Some (w3, n3, p3) \<Rightarrow>
                                         (let (m4, n4) =
                                                (if LWS_WITH_RANGES b \<and>
                                                    range_send_ctr r + 1 = range_count_ranges r \<and>
                                                    range_count_ranges r > 1 \<and>
                                                    sub_u64 (range_budget r) amount = 0
                                                 then (case lws_snprintf 6 trailing_boundary of
                                                         (bs, k) \<Rightarrow>
                                                           (write_bytes (mem w3) (pstart + n3) bs, n3 + k))
                                                 else (mem w3, n3))
                                          in Write_fragment (w3\<lparr>mem := m4\<rparr>) p3 n4
                                               (if (filepos h + amount) mod 2 ^ 64 = filelen h
                                                then LWS_WRITE_HTTP_FINAL b else LWS_WRITE_HTTP b)
                                               amount)))))))"

text \<open>The two negative answers of the transport are distinct \<^verbatim>\<open>int\<close> values, and an
  answer \<open>r\<close> stands for \<open>n\<close> bytes accepted: \<open>r\<close> itself, or none when the transport asks
  for more service.\<close>

definition ssl_consts_ok :: "lws_build \<Rightarrow> bool" where
  "ssl_consts_ok b =
    (- (2 ^ 31) \<le> LWS_SSL_CAPABLE_ERROR b \<and> LWS_SSL_CAPABLE_ERROR b < 0 \<and>
     - (2 ^ 31) \<le> LWS_SSL_CAPABLE_MORE_SERVICE b \<and> LWS_SSL_CAPABLE_MORE_SERVICE b < 0 \<and>
     LWS_SSL_CAPABLE_ERROR b \<noteq> LWS_SSL_CAPABLE_MORE_SERVICE b)"

definition accepted :: "lws_build \<Rightarrow> int \<Rightarrow> nat \<Rightarrow> bool" where
  "accepted b r n = ((0 \<le> r \<and> n = nat r) \<or> (r = LWS_SSL_CAPABLE_MORE_SERVICE b \<and> n = 0))"

subsection \<open>Example configurations\<close>

text \<open>A release build for a 64-bit target without extensions.  An outside with a
  transport that accepts up to \<open>r\<close> bytes of what it is offered (or answers the negative
  \<open>r\<close>), an allocator that returns \<open>a\<close>, callbacks that succeed and change nothing, a
  random source that yields \<open>A1 B2 C3 D4\<close>, lower layers that take all they are given, and
  a file that has ten bytes \<open>41\<close> left to read.
  An idle connection, in the one state that counts as a WebSocket state here, whose
  memory holds at every address the low byte of the address.\<close>

definition build_lp64 :: lws_build where
  "build_lp64 =
    \<lparr>LP64 = True, NDEBUG = True, LWS_WITHOUT_EXTENSIONS = True, LWS_WITH_HTTP2 = False,
     LWS_WITH_RANGES = True, LWS_PRE = 16, LWS_SSL_CAPABLE_ERROR = - 1,
     LWS_SSL_CAPABLE_MORE_SERVICE = - 4, LWS_WRITE_TEXT = 0, LWS_WRITE_BINARY = 1,
     LWS_WRITE_CONTINUATION = 2, LWS_WRITE_HTTP = 3, LWS_WRITE_CLOSE = 4, LWS_WRITE_PING = 5,
     LWS_WRITE_PONG = 6, LWS_WRITE_HTTP_FINAL = 7, LWS_WRITE_HTTP_HEADERS = 8,
     LWS_WRITE_HTTP_HEADERS_CONTINUATION = 9, LWS_WRITE_NO_FIN = 64,
     LWS_WRITE_H2_STREAM_END = 128, LWS_H2_FRAME_HEADER_LENGTH = 9, mask_idx_bits = 8\<rparr>"

definition env_tx :: "int \<Rightarrow> addr \<Rightarrow> lws_env" where
  "env_tx r a =
    \<lparr>lws_ext_cb_packet_tx_do_send = (\<lambda>w buf n. (0, buf)),
     lws_ssl_capable_write = (\<lambda>w buf n. if r < 0 then r else if n < 0 then - 1 else min r n),
     lws_malloc = (\<lambda>w k. a),
     child_write_via_parent = (\<lambda>w pas. (0, w)),
     lws_state_is_ws = (\<lambda>st. st = LWSS_other 0),
     lws_ext_cb_payload_tx = (\<lambda>w buf n wp. (0, buf, n, mem w)),
     lws_get_random = (\<lambda>w. (4, [0xA1, 0xB2, 0xC3, 0xD4])),
     lws_issue_raw_ext_access = (\<lambda>w buf n. (cast_int n, w)),
     lws_h2_frame_write = (\<lambda>w ty fl sid n buf. (n, w)),
     lws_vfs_file_seek_cur = (\<lambda>w off. 0),
     lws_h2_tx_cr_get = (\<lambda>w. 65535),
     lws_vfs_file_read = (\<lambda>w p poss. (0, take poss (replicate 10 0x41))),
     process_html = (\<lambda>w args. (0, args, mem w))\<rparr>"

definition ws_idle :: lws_ws where
  "ws_idle =
    \<lparr>mask_ws = [0, 0, 0, 0], mask_idx = 0, inside_frame = False, clean_buffer = True,
     tx_draining_ext = False, tx_draining_stashed_wp = 0, stashed_write_pending = False,
     stashed_write_type = 0, ietf_spec_revision = 13\<rparr>"

definition conn_idle :: lws where
  "conn_idle =
    \<lparr>could_have_pending = False, state = LWSS_other 0, mode = LWSCM_other 0,
     trunc_alloc = 0, trunc_alloc_len = 0, trunc_offset = 0, trunc_len = 0,
     socket_is_permanently_unusable = False, http2_substream = False,
     h2_stream_carries_ws = False, parent_carries_io = False, sending_chunked = False,
     interpreting = False,
     protocol = \<lparr>tx_packet_size = 0, rx_buffer_size = 0\<rparr>,
     ws = Some ws_idle,
     http = \<lparr>filepos = 0, filelen = 0, tx_content_length = 0, tx_content_remain = 0,
             multipart_content_type = [],
             range_http = \<lparr>range_start = 0, range_end = 0, range_extent = 0, range_budget = 0,
                      range_inside = False, range_send_ctr = 0, range_count_ranges = 0\<rparr>\<rparr>,
     h2 = \<lparr>send_END_STREAM = False, my_sid = 0\<rparr>\<rparr>"

definition world_of :: "lws \<Rightarrow> world" where
  "world_of c =
    \<lparr>wsi = c, wsi_ptr = 64, mem = (\<lambda>a. word_of_int a), pt_serv_buf_size = 4096,
     serv_buf = 8192, pt_tx_draining_ext_list = [], trace = []\<rparr>"

text \<open>A connection with four bytes pending at offset \<open>off\<close> of a truncation buffer at
  address 1000.\<close>

definition conn_pending :: "nat \<Rightarrow> lws" where
  "conn_pending off =
    conn_idle\<lparr>trunc_alloc := 1000, trunc_alloc_len := off + 4, trunc_offset := off,
              trunc_len := 4\<rparr>"

text \<open>A connection whose protocol hints at packets of four bytes.\<close>

definition conn_hint :: lws where
  "conn_hint = conn_idle\<lparr>protocol := \<lparr>tx_packet_size = 4, rx_buffer_size = 0\<rparr>\<rparr>"

text \<open>A child connection whose I/O is carried by its parent, and an outside in which the
  parent's callback fails.\<close>

definition env_parent_fails :: lws_env where
  "env_parent_fails = (env_tx 0 0)\<lparr>child_write_via_parent := (\<lambda>w pas. (- 1, w))\<rparr>"

definition conn_child :: lws where
  "conn_child = conn_idle\<lparr>parent_carries_io := True\<rparr>"

text \<open>Big-endian, in the words of the spec: the \<open>k\<close> bytes of \<open>L\<close>, most significant
  first, and the number a list of bytes stands for.\<close>

fun be_bytes :: "nat \<Rightarrow> nat \<Rightarrow> byte list" where
  "be_bytes 0 L = []"
| "be_bytes (Suc k) L = of_nat (L div 256 ^ k) # be_bytes k L"

definition be_value :: "byte list \<Rightarrow> nat" where
  "be_value bs = foldl (\<lambda>a x. a * 256 + unat x) 0 bs"




text \<open>A connection that has served bytes 0 to 9 of a file of 1000 bytes as the first of
  two ranges and is about to enter the second, bytes 990 to 999.\<close>

definition conn_second_range :: lws where
  "conn_second_range =
    conn_idle\<lparr>state := LWSS_HTTP,
      http := \<lparr>filepos = 10, filelen = 1000, tx_content_length = 0, tx_content_remain = 0,
               multipart_content_type = ''text/plain'',
               range_http = \<lparr>range_start = 990, range_end = 999, range_extent = 1000,
                             range_budget = 0, range_inside = False, range_send_ctr = 1,
                             range_count_ranges = 2\<rparr>\<rparr>\<rparr>"

text \<open>A build with extensions, and an outside whose extension takes every send over and
  reports \<open>m\<close> bytes sent.\<close>

definition build_ext :: lws_build where
  "build_ext = build_lp64\<lparr>LWS_WITHOUT_EXTENSIONS := False\<rparr>"

definition env_ext_sends :: "int \<Rightarrow> lws_env" where
  "env_ext_sends m = (env_tx 0 0)\<lparr>lws_ext_cb_packet_tx_do_send := (\<lambda>w buf n. (m, buf))\<rparr>"

section \<open>Properties\<close>

lemmas issue_raw_defs =
  lws_issue_raw_def issue_raw_socket_def limit_sending_def handle_truncated_send_def
  truncated_store_def lws_callback_on_writable_def regions_overlap_def Let_def
  cast_int_def cast_uint_def add_u32_def sub_u32_def sub_size_def size_bits_def

lemmas example_defs =
  build_lp64_def env_tx_def world_of_def conn_idle_def conn_pending_def

lemmas ext_defs = build_ext_def env_ext_sends_def

subsection \<open>Casts and traces\<close>

lemma cast_int_small: "n < 2 ^ 31 \<Longrightarrow> cast_int n = int n"
  by (simp add: cast_int_def)

lemma cast_int_le: "cast_int n \<le> int n"
  by (simp add: cast_int_def) (smt (verit) mod_less_eq_dividend of_nat_mono of_nat_0_le_iff)

lemma cast_int_lt: "cast_int n < 2 ^ 31"
proof -
  have "n mod 4294967296 < 4294967296" by simp
  then show ?thesis by (auto simp add: cast_int_def)
qed

lemma cast_uint_nonneg: "0 \<le> i \<Longrightarrow> i < 2 ^ 32 \<Longrightarrow> cast_uint i = nat i"
  by (simp add: cast_uint_def)

lemma cast_uint_neg: "- (2 ^ 31) \<le> i \<Longrightarrow> i < 0 \<Longrightarrow> cast_uint i = nat (i + 2 ^ 32)"
proof -
  assume a: "- (2 ^ 31) \<le> i" "i < 0"
  have "i mod 2 ^ 32 = (i + 2 ^ 32) mod 2 ^ 32" by simp
  also have "\<dots> = i + 2 ^ 32" using a by (intro mod_pos_pos_trivial) auto
  finally show ?thesis by (simp add: cast_uint_def)
qed

lemma transport_calls_append:
  "transport_calls (xs @ ys) = transport_calls xs @ transport_calls ys"
  by (induction xs rule: transport_calls.induct) simp_all

lemma writable_rearms_append:
  "writable_rearms (xs @ ys) = writable_rearms xs + writable_rearms ys"
  by (induction xs rule: writable_rearms.induct) simp_all

lemma truncated_store_frame:
  "could_have_pending (wsi (snd (truncated_store w buf real_len n need))) = could_have_pending (wsi w)"
  "transport_calls (trace (snd (truncated_store w buf real_len n need))) = transport_calls (trace w)"
  by (simp_all add: truncated_store_def Let_def lws_callback_on_writable_def transport_calls_append)

lemma handle_truncated_send_frame:
  "could_have_pending (wsi (snd (handle_truncated_send b e w buf real_len n))) = could_have_pending (wsi w)"
  "transport_calls (trace (snd (handle_truncated_send b e w buf real_len n))) = transport_calls (trace w)"
  by (simp_all add: handle_truncated_send_def Let_def lws_callback_on_writable_def
      transport_calls_append truncated_store_frame)

lemma issue_raw_socket_pending:
  "could_have_pending (wsi (snd (issue_raw_socket b e w buf len)))"
  by (simp add: issue_raw_socket_def Let_def handle_truncated_send_frame)

lemma issue_raw_socket_calls:
  "transport_calls (trace (snd (issue_raw_socket b e w buf len))) =
     transport_calls (trace w) @ [(buf, cast_int (limit_sending b w len))]"
  by (simp add: issue_raw_socket_def Let_def handle_truncated_send_frame transport_calls_append)

text \<open>Claim C3.  A call of \<^verbatim>\<open>lws_issue_raw\<close> entered while \<open>could_have_pending\<close> is set
  returns \<open>-1\<close> and leaves the world as it was, so nothing is offered to the transport;
  and whenever a call does offer bytes to the transport, \<open>could_have_pending\<close> is set when
  it returns.\<close>

theorem issue_raw_back_to_back:
  "(could_have_pending (wsi w) \<longrightarrow> lws_issue_raw b e w buf len = (Return (- 1), w)) \<and>
   (transport_calls (trace (snd (lws_issue_raw b e w buf len))) \<noteq> transport_calls (trace w) \<longrightarrow>
      could_have_pending (wsi (snd (lws_issue_raw b e w buf len))))"
  by (simp add: lws_issue_raw_def Let_def handle_truncated_send_frame issue_raw_socket_pending
      split: prod.splits)

text \<open>Witness for C3: a second issue on a pending connection, and a first issue of four
  bytes on an idle one.\<close>

theorem issue_raw_back_to_back_witness:
  "could_have_pending (conn_idle\<lparr>could_have_pending := True\<rparr>) \<and>
   lws_issue_raw build_lp64 (env_tx 4 0) (world_of (conn_idle\<lparr>could_have_pending := True\<rparr>)) 2000 4 =
     (Return (- 1), world_of (conn_idle\<lparr>could_have_pending := True\<rparr>)) \<and>
   transport_calls (trace (snd (lws_issue_raw build_lp64 (env_tx 4 0) (world_of conn_idle) 2000 4))) = [(2000, 4)] \<and>
   transport_calls (trace (world_of conn_idle)) = [] \<and>
   could_have_pending (wsi (snd (lws_issue_raw build_lp64 (env_tx 4 0) (world_of conn_idle) 2000 4)))"
proof -
  have a: "could_have_pending (conn_idle\<lparr>could_have_pending := True\<rparr>)" by simp
  have c: "transport_calls (trace (snd (lws_issue_raw build_lp64 (env_tx 4 0) (world_of conn_idle) 2000 4))) = [(2000, 4)]"
    by (simp add: issue_raw_defs example_defs)
  have d: "transport_calls (trace (world_of conn_idle)) = []" by (simp add: world_of_def)
  from issue_raw_back_to_back [of "world_of (conn_idle\<lparr>could_have_pending := True\<rparr>)" build_lp64 "env_tx 4 0" 2000 4]
    issue_raw_back_to_back [of "world_of conn_idle" build_lp64 "env_tx 4 0" 2000 4]
    a c d show ?thesis by (simp add: world_of_def)
qed

text \<open>Claim C10.  With \<open>could_have_pending\<close> clear, a call with length 0 returns 0 and
  leaves the whole world unchanged: the connection (flag and truncation fields), the memory
  and the trace, which would hold a transport call or a re-armed writable notification.\<close>

theorem issue_raw_zero_length:
  "\<not> could_have_pending (wsi w) \<Longrightarrow> lws_issue_raw b e w buf 0 = (Return 0, w)"
  by (simp add: lws_issue_raw_def)

text \<open>Witness for C10: an idle connection.\<close>

theorem issue_raw_zero_length_witness:
  "\<not> could_have_pending (wsi (world_of conn_idle)) \<and>
   lws_issue_raw build_lp64 (env_tx 4 0) (world_of conn_idle) 2000 0 = (Return 0, world_of conn_idle)"
proof -
  have a: "\<not> could_have_pending (wsi (world_of conn_idle))"
    by (simp add: world_of_def conn_idle_def)
  from a issue_raw_zero_length [OF a] show ?thesis by simp
qed

text \<open>Claim C8, as amended.  With a truncation pending, a non-zero length and
  \<open>could_have_pending\<close> clear: a \<open>buf\<close> below \<open>trunc_alloc\<close> or above
  \<open>trunc_alloc + trunc_offset + trunc_len\<close> is rejected before anything else happens
  (\<open>-1\<close> in a build with \<^verbatim>\<open>NDEBUG\<close>, the abort of \<^verbatim>\<open>assert(0)\<close> otherwise), and a call
  that reaches the transport or returns a non-negative value had \<open>buf\<close> between these
  two bounds.\<close>

theorem issue_raw_aliasing_guard:
  assumes "\<not> could_have_pending (wsi w)" and "len \<noteq> 0" and "trunc_len (wsi w) \<noteq> 0"
  shows "(buf < trunc_alloc (wsi w) \<or>
          buf > trunc_alloc (wsi w) + int (trunc_len (wsi w)) + int (trunc_offset (wsi w)) \<longrightarrow>
            lws_issue_raw b e w buf len = (if NDEBUG b then Return (- 1) else Assert_failed, w)) \<and>
         (transport_calls (trace (snd (lws_issue_raw b e w buf len))) \<noteq> transport_calls (trace w) \<or>
          (\<exists>r. 0 \<le> r \<and> fst (lws_issue_raw b e w buf len) = Return r) \<longrightarrow>
            trunc_alloc (wsi w) \<le> buf \<and>
            buf \<le> trunc_alloc (wsi w) + int (trunc_len (wsi w)) + int (trunc_offset (wsi w)))"
  using assms by (auto simp add: lws_issue_raw_def Let_def)

text \<open>Counterexample to C8 as stated: four bytes are pending at offset 4 of the buffer at
  1000, so the pending region starts at 1004; a call with \<open>buf = 1000\<close>, outside that
  region, is not rejected: it reaches the transport and returns 4.\<close>

theorem issue_raw_aliasing_guard_counterexample:
  "trunc_len (wsi (world_of (conn_pending 4))) = 4 \<and>
   trunc_alloc (wsi (world_of (conn_pending 4))) + int (trunc_offset (wsi (world_of (conn_pending 4)))) = 1004 \<and>
   fst (lws_issue_raw build_lp64 (env_tx 4 0) (world_of (conn_pending 4)) 1000 4) = Return 4 \<and>
   transport_calls (trace (snd (lws_issue_raw build_lp64 (env_tx 4 0) (world_of (conn_pending 4)) 1000 4))) = [(1000, 4)]"
  by (simp add: issue_raw_defs example_defs)

text \<open>Witness for the amended C8: \<open>buf = 999\<close> is rejected, \<open>buf = 1004\<close> is sent.\<close>

theorem issue_raw_aliasing_guard_witness:
  "\<not> could_have_pending (wsi (world_of (conn_pending 4))) \<and> (4::nat) \<noteq> 0 \<and>
   trunc_len (wsi (world_of (conn_pending 4))) \<noteq> 0 \<and>
   (999::int) < trunc_alloc (wsi (world_of (conn_pending 4))) \<and>
   lws_issue_raw build_lp64 (env_tx 4 0) (world_of (conn_pending 4)) 999 4 = (Return (- 1), world_of (conn_pending 4)) \<and>
   fst (lws_issue_raw build_lp64 (env_tx 4 0) (world_of (conn_pending 4)) 1004 4) = Return 4 \<and>
   trunc_alloc (wsi (world_of (conn_pending 4))) \<le> 1004 \<and>
   1004 \<le> trunc_alloc (wsi (world_of (conn_pending 4))) + int (trunc_len (wsi (world_of (conn_pending 4)))) +
      int (trunc_offset (wsi (world_of (conn_pending 4))))"
proof -
  have a: "\<not> could_have_pending (wsi (world_of (conn_pending 4)))"
    and c: "trunc_len (wsi (world_of (conn_pending 4))) \<noteq> 0"
    and d: "(999::int) < trunc_alloc (wsi (world_of (conn_pending 4)))"
    by (simp_all add: world_of_def conn_pending_def conn_idle_def)
  have b: "(4::nat) \<noteq> 0" by simp
  have s: "fst (lws_issue_raw build_lp64 (env_tx 4 0) (world_of (conn_pending 4)) 1004 4) = Return 4"
    by (simp add: issue_raw_defs example_defs)
  from issue_raw_aliasing_guard [OF a b c, where buf = 999 and b = build_lp64 and e = "env_tx 4 0"] d
  have r1: "lws_issue_raw build_lp64 (env_tx 4 0) (world_of (conn_pending 4)) 999 4 = (Return (- 1), world_of (conn_pending 4))"
    by (simp add: build_lp64_def)
  from issue_raw_aliasing_guard [OF a b c, where buf = 1004 and b = build_lp64 and e = "env_tx 4 0"] s
  have r2: "trunc_alloc (wsi (world_of (conn_pending 4))) \<le> 1004 \<and>
   1004 \<le> trunc_alloc (wsi (world_of (conn_pending 4))) + int (trunc_len (wsi (world_of (conn_pending 4)))) +
      int (trunc_offset (wsi (world_of (conn_pending 4))))"
    by simp
  from a b c d r1 s r2 show ?thesis by blast
qed


subsection \<open>The truncation buffer\<close>

lemma cast_uint_cast_int: "cast_uint (cast_int n) = n mod 2 ^ 32"
proof -
  have "(int (n mod 2 ^ 32) - 2 ^ 32) mod 2 ^ 32 = int (n mod 2 ^ 32) mod 2 ^ 32"
    by (metis minus_mod_self2)
  then show ?thesis
    by (simp add: cast_uint_def cast_int_def flip: zmod_int)
qed

lemma add_u32_le: "add_u32 a n \<le> a + n"
  by (simp add: add_u32_def)

lemma sub_u32_le: "n \<le> a \<Longrightarrow> sub_u32 a n \<le> a - n"
proof -
  assume "n \<le> a"
  then have "(int a - int n) mod 2 ^ 32 \<le> int a - int n"
    by (intro zmod_le_nonneg_dividend) simp
  then show ?thesis using \<open>n \<le> a\<close> by (simp add: sub_u32_def)
qed

lemma add_u32_bound: "add_u32 a n < 2 ^ 32"
  by (simp add: add_u32_def)

lemma limit_sending_le: "limit_sending b w len \<le> len"
  by (simp add: limit_sending_def Let_def cast_uint_cast_int)

lemma truncated_store_inv:
  "need mod 2 ^ 32 \<le> trunc_alloc_len (wsi w) \<Longrightarrow>
   trunc_invariant (wsi (snd (truncated_store w buf real_len n need)))"
  by (simp add: truncated_store_def Let_def trunc_invariant_def lws_callback_on_writable_def)

lemma handle_truncated_send_inv:
  assumes "trunc_invariant (wsi w)" and "trunc_len (wsi w) \<noteq> 0 \<longrightarrow> n \<le> trunc_len (wsi w)"
  shows "trunc_invariant (wsi (snd (handle_truncated_send b e w buf real_len n)))"
proof (cases "trunc_len (wsi w) = 0")
  case True
  have "\<And>k. k mod 4294967296 \<le> (k::nat)" by simp
  then have "\<And>k a. \<not> a < k \<Longrightarrow> k mod 4294967296 \<le> (a::nat)"
    by (meson le_trans not_less)
  with True assms(1) show ?thesis
    by (auto simp add: handle_truncated_send_def truncated_store_def Let_def
        trunc_invariant_def lws_callback_on_writable_def)
next
  case False
  with assms(2) have le: "n \<le> trunc_len (wsi w)" by simp
  from add_u32_le [of "trunc_offset (wsi w)" n] sub_u32_le [OF le] le assms(1) False
  have "add_u32 (trunc_offset (wsi w)) n + sub_u32 (trunc_len (wsi w)) n \<le> trunc_alloc_len (wsi w)"
    by (simp add: trunc_invariant_def)
  with False show ?thesis
    by (simp add: handle_truncated_send_def Let_def trunc_invariant_def lws_callback_on_writable_def)
qed

lemma issue_raw_socket_inv:
  assumes inv: "trunc_invariant (wsi w)"
    and tc: "transport_contract b e"
    and le: "trunc_len (wsi w) \<noteq> 0 \<longrightarrow> len \<le> trunc_len (wsi w)"
  shows "trunc_invariant (wsi (snd (issue_raw_socket b e w buf len)))"
proof -
  define n2 where "n2 = limit_sending b w len"
  define r where "r = lws_ssl_capable_write e w buf (cast_int n2)"
  define w1 where "w1 = w\<lparr>wsi := (wsi w)\<lparr>could_have_pending := True\<rparr>,
                 trace := trace w @ [Ssl_capable_write buf (cast_int n2) r]\<rparr>"
  define n where "n = (if cast_uint r = cast_uint (LWS_SSL_CAPABLE_MORE_SERVICE b) then 0 else cast_uint r)"
  have inv1: "trunc_invariant (wsi w1)" using inv by (simp add: w1_def trunc_invariant_def)
  show ?thesis
  proof (cases "cast_uint r = cast_uint (LWS_SSL_CAPABLE_ERROR b)")
    case True
    then show ?thesis using inv
      by (simp add: issue_raw_socket_def Let_def n2_def [symmetric] r_def [symmetric] trunc_invariant_def)
  next
    case False
    then have ne: "r \<noteq> LWS_SSL_CAPABLE_ERROR b" by auto
    have "n \<le> len"
    proof (cases "r = LWS_SSL_CAPABLE_MORE_SERVICE b")
      case True then show ?thesis by (simp add: n_def)
    next
      case False
      with ne tc have "0 \<le> r \<and> r \<le> cast_int n2"
        unfolding transport_contract_def r_def by blast
      moreover have "cast_int n2 \<le> int len" "cast_int n2 < 2 ^ 31"
        using cast_int_le [of n2] limit_sending_le [of b w len] cast_int_lt [of n2]
        by (simp_all add: n2_def)
      ultimately have rr: "0 \<le> r" "r \<le> int len" "r < 2 ^ 32"
        by auto
      then have "cast_uint r = nat r" by (simp add: cast_uint_nonneg)
      moreover from rr have "nat r \<le> len" by linarith
      ultimately show ?thesis by (simp add: n_def)
    qed
    with le have "trunc_len (wsi w1) \<noteq> 0 \<longrightarrow> n \<le> trunc_len (wsi w1)"
      by (auto simp add: w1_def)
    from handle_truncated_send_inv [OF inv1 this, of b e buf len] False show ?thesis
      unfolding issue_raw_socket_def Let_def n_def w1_def r_def n2_def
      by (simp split del: if_split)
  qed
qed

text \<open>Claim C6, as amended.  A call of \<^verbatim>\<open>lws_issue_raw\<close> entered with the
  truncation-buffer invariant leaves it in place under three conditions: the transport
  keeps its contract (an error, retry later, or no more bytes accepted than offered); an
  extension that takes the send over reports no more than \<open>len\<close> bytes sent; and a replay
  (a call with a truncation pending) is given no more than the pending \<open>trunc_len\<close>
  bytes.\<close>

theorem issue_raw_preserves_trunc_invariant:
  assumes inv: "trunc_invariant (wsi w)"
    and tc: "transport_contract b e"
    and le: "trunc_len (wsi w) \<noteq> 0 \<longrightarrow> len \<le> trunc_len (wsi w)"
    and ext: "LWS_WITHOUT_EXTENSIONS b \<or> fst (lws_ext_cb_packet_tx_do_send e w buf (cast_int len)) \<le> cast_int len"
  shows "trunc_invariant (wsi (snd (lws_issue_raw b e w buf len)))"
proof (cases "LWS_WITHOUT_EXTENSIONS b")
  case True
  then show ?thesis using inv issue_raw_socket_inv [OF inv tc le]
    by (simp add: lws_issue_raw_def Let_def)
next
  case False
  obtain m buf' where cb: "lws_ext_cb_packet_tx_do_send e w buf (cast_int len) = (m, buf')"
    by (cases "lws_ext_cb_packet_tx_do_send e w buf (cast_int len)")
  with ext False have m: "m \<le> cast_int len" by simp
  have "0 < m \<Longrightarrow> cast_uint m \<le> len"
    using m cast_int_le [of len] cast_int_lt [of len] by (simp add: cast_uint_nonneg)
  with le have "0 < m \<Longrightarrow> trunc_len (wsi w) \<noteq> 0 \<longrightarrow> cast_uint m \<le> trunc_len (wsi w)"
    by auto
  from handle_truncated_send_inv [OF inv this] issue_raw_socket_inv [OF inv tc le] inv cb False
  show ?thesis
    by (auto simp add: lws_issue_raw_def Let_def)
qed

text \<open>Counterexample to C6 as stated, at two inputs.  Four bytes are pending in a buffer
  of four bytes.  A call with \<open>buf = trunc_alloc\<close> passes the aliasing guard with
  \<open>len = 8\<close>, the transport accepts the eight bytes, and \<open>trunc_len\<close> wraps around to
  \<open>2\<^sup>3\<^sup>2 - 4\<close> at offset 8.  In a build with extensions, a call with \<open>len = 4\<close> whose
  send an extension takes over, reporting eight bytes sent, ends in the same state.\<close>

theorem issue_raw_preserves_trunc_invariant_counterexample:
  "trunc_invariant (wsi (world_of (conn_pending 0))) \<and>
   lws_issue_raw build_lp64 (env_tx 8 0) (world_of (conn_pending 0)) 1000 8 =
     (Return 8, (world_of (conn_pending 0))
        \<lparr>wsi := (conn_pending 0)\<lparr>could_have_pending := True, trunc_offset := 8, trunc_len := 4294967292\<rparr>,
         trace := [Ssl_capable_write 1000 8 8, Callback_on_writable]\<rparr>) \<and>
   \<not> trunc_invariant (wsi (snd (lws_issue_raw build_lp64 (env_tx 8 0) (world_of (conn_pending 0)) 1000 8))) \<and>
   lws_ext_cb_packet_tx_do_send (env_ext_sends 8) (world_of (conn_pending 0)) 1000 4 = (8, 1000) \<and>
   lws_issue_raw build_ext (env_ext_sends 8) (world_of (conn_pending 0)) 1000 4 =
     (Return 8, (world_of (conn_pending 0))
        \<lparr>wsi := (conn_pending 0)\<lparr>trunc_offset := 8, trunc_len := 4294967292\<rparr>,
         trace := [Callback_on_writable]\<rparr>) \<and>
   \<not> trunc_invariant (wsi (snd (lws_issue_raw build_ext (env_ext_sends 8) (world_of (conn_pending 0)) 1000 4)))"
  by (simp add: issue_raw_defs example_defs ext_defs trunc_invariant_def)

lemma read_bytes_memcpy: "read_bytes (memcpy m dst src k) dst k = read_bytes m src k"
  by (simp add: read_bytes_def memcpy_def)

lemma read_bytes_nth:
  "read_bytes m a k = read_bytes m' a' k \<Longrightarrow> i < k \<Longrightarrow> m (a + int i) = m' (a' + int i)"
proof -
  assume eq: "read_bytes m a k = read_bytes m' a' k" and i: "i < k"
  from i have "read_bytes m a k ! i = m (a + int i)" "read_bytes m' a' k ! i = m' (a' + int i)"
    by (simp_all add: read_bytes_def)
  with eq show ?thesis by simp
qed

lemma sub_size_small: "n \<le> len \<Longrightarrow> len < 2 ^ 31 \<Longrightarrow> sub_size b len n = len - n"
proof -
  assume a: "n \<le> len" "len < 2 ^ 31"
  have "(2::int) ^ 31 \<le> 2 ^ size_bits b"
    by (simp add: size_bits_def)
  with a have "(int len - int n) mod 2 ^ size_bits b = int len - int n"
    by (intro mod_pos_pos_trivial) auto
  with a show ?thesis by (simp add: sub_size_def)
qed

lemma handle_truncated_send_new:
  assumes t0: "trunc_len (wsi w) = 0" and n: "n < len" and len: "len < 2 ^ 31"
    and res: "handle_truncated_send b e w buf len n = (out, w')"
  shows "(trunc_alloc (wsi w') = 0 \<longrightarrow> out = Return (- 1)) \<and>
         (trunc_alloc (wsi w') \<noteq> 0 \<and>
          \<not> regions_overlap (trunc_alloc (wsi w')) (buf + int n) (len - n) \<longrightarrow>
            out = Return (int len) \<and> trunc_offset (wsi w') = 0 \<and>
            trunc_len (wsi w') = len - n \<and> len - n \<le> trunc_alloc_len (wsi w') \<and>
            read_bytes (mem w') (trunc_alloc (wsi w')) (len - n) =
              read_bytes (mem w) (buf + int n) (len - n) \<and>
            writable_rearms (trace w') = writable_rearms (trace w) + 1 \<and>
            transport_calls (trace w') = transport_calls (trace w) \<and>
            could_have_pending (wsi w') = could_have_pending (wsi w))"
proof -
  have need: "sub_size b len n = len - n" using n len by (simp add: sub_size_small)
  have small: "(len - n) mod 4294967296 = len - n" using len by simp
  from res t0 n show ?thesis
    by (auto simp add: handle_truncated_send_def truncated_store_def Let_def need small
        lws_callback_on_writable_def read_bytes_memcpy writable_rearms_append
        transport_calls_append cast_int_small [OF len] split: if_splits)
qed

lemma issue_raw_socket_accepts:
  assumes ok: "ssl_consts_ok b"
    and len: "len < 2 ^ 31"
    and r: "r = lws_ssl_capable_write e w buf (cast_int (limit_sending b w len))"
    and acc: "accepted b r n" and rlt: "r < int len"
  shows "issue_raw_socket b e w buf len =
           handle_truncated_send b e
             (w\<lparr>wsi := (wsi w)\<lparr>could_have_pending := True\<rparr>,
                trace := trace w @ [Ssl_capable_write buf (cast_int (limit_sending b w len)) r]\<rparr>)
             buf len n"
proof -
  have e1: "cast_uint (LWS_SSL_CAPABLE_ERROR b) = nat (LWS_SSL_CAPABLE_ERROR b + 2 ^ 32)"
    and e2: "cast_uint (LWS_SSL_CAPABLE_MORE_SERVICE b) = nat (LWS_SSL_CAPABLE_MORE_SERVICE b + 2 ^ 32)"
    using ok by (simp_all add: ssl_consts_ok_def cast_uint_neg)
  show ?thesis
  proof (cases "0 \<le> r")
    case True
    with rlt len have "cast_uint r = nat r" by (simp add: cast_uint_nonneg)
    moreover from True acc ok have "n = nat r" by (auto simp add: accepted_def ssl_consts_ok_def)
    moreover from True rlt len ok have "nat r \<noteq> nat (LWS_SSL_CAPABLE_ERROR b + 2 ^ 32)"
      "nat r \<noteq> nat (LWS_SSL_CAPABLE_MORE_SERVICE b + 2 ^ 32)"
      by (auto simp add: ssl_consts_ok_def)
    ultimately show ?thesis
      by (simp add: issue_raw_socket_def Let_def r [symmetric] e1 e2)
  next
    case False
    with acc have rm: "r = LWS_SSL_CAPABLE_MORE_SERVICE b" "n = 0" by (auto simp add: accepted_def)
    from ok have "nat (LWS_SSL_CAPABLE_MORE_SERVICE b + 2 ^ 32) \<noteq> nat (LWS_SSL_CAPABLE_ERROR b + 2 ^ 32)"
      by (auto simp add: ssl_consts_ok_def)
    with rm show ?thesis
      by (simp add: issue_raw_socket_def Let_def r [symmetric] e1 e2)
  qed
qed

lemma issue_raw_truncates:
  assumes ok: "ssl_consts_ok b"
    and entry: "\<not> could_have_pending (wsi w)" "trunc_len (wsi w) = 0"
      "state (wsi w) \<noteq> LWSS_FLUSHING_SEND_BEFORE_CLOSE"
    and len: "0 < len" "len < 2 ^ 31"
    and ext: "LWS_WITHOUT_EXTENSIONS b \<or> lws_ext_cb_packet_tx_do_send e w buf (cast_int len) = (0, buf)"
    and r: "r = lws_ssl_capable_write e w buf (cast_int (limit_sending b w len))"
    and acc: "accepted b r n" and rlt: "r < int len"
    and res: "lws_issue_raw b e w buf len = (out, w')"
  shows "(trunc_alloc (wsi w') = 0 \<longrightarrow> out = Return (- 1)) \<and>
         (trunc_alloc (wsi w') \<noteq> 0 \<and>
          \<not> regions_overlap (trunc_alloc (wsi w')) (buf + int n) (len - n) \<longrightarrow>
            out = Return (int len) \<and> trunc_offset (wsi w') = 0 \<and>
            trunc_len (wsi w') = len - n \<and> len - n \<le> trunc_alloc_len (wsi w') \<and>
            read_bytes (mem w') (trunc_alloc (wsi w')) (len - n) =
              read_bytes (mem w) (buf + int n) (len - n) \<and>
            writable_rearms (trace w') = writable_rearms (trace w) + 1)"
proof -
  define w1 where "w1 = w\<lparr>wsi := (wsi w)\<lparr>could_have_pending := True\<rparr>,
                trace := trace w @ [Ssl_capable_write buf (cast_int (limit_sending b w len)) r]\<rparr>"
  from entry len ext have "lws_issue_raw b e w buf len = issue_raw_socket b e w buf len"
    by (auto simp add: lws_issue_raw_def Let_def)
  with res issue_raw_socket_accepts [OF ok len(2) r acc rlt]
  have h: "handle_truncated_send b e w1 buf len n = (out, w')" by (simp add: w1_def)
  have n: "n < len" using acc rlt len by (auto simp add: accepted_def)
  have t0: "trunc_len (wsi w1) = 0" using entry by (simp add: w1_def)
  from handle_truncated_send_new [OF t0 n len(2) h] show ?thesis
    by (simp add: w1_def writable_rearms_append)
qed


text \<open>Witness for the amended C6: the replay of four pending bytes in a build with
  extensions, where an extension takes the send over and reports two of them sent.\<close>

theorem issue_raw_preserves_trunc_invariant_witness:
  "trunc_invariant (wsi (world_of (conn_pending 0))) \<and>
   transport_contract build_ext (env_ext_sends 2) \<and>
   trunc_len (wsi (world_of (conn_pending 0))) \<noteq> 0 \<and>
   (4::nat) \<le> trunc_len (wsi (world_of (conn_pending 0))) \<and>
   \<not> LWS_WITHOUT_EXTENSIONS build_ext \<and>
   fst (lws_ext_cb_packet_tx_do_send (env_ext_sends 2) (world_of (conn_pending 0)) 1000 (cast_int 4)) = 2 \<and>
   (2::int) \<le> cast_int 4 \<and>
   trunc_offset (wsi (snd (lws_issue_raw build_ext (env_ext_sends 2) (world_of (conn_pending 0)) 1000 4))) = 2 \<and>
   trunc_len (wsi (snd (lws_issue_raw build_ext (env_ext_sends 2) (world_of (conn_pending 0)) 1000 4))) = 2 \<and>
   trunc_invariant (wsi (snd (lws_issue_raw build_ext (env_ext_sends 2) (world_of (conn_pending 0)) 1000 4)))"
proof -
  let ?w = "world_of (conn_pending 0)"
  have inv: "trunc_invariant (wsi ?w)"
    by (simp add: example_defs trunc_invariant_def)
  have tc: "transport_contract build_ext (env_ext_sends 2)"
    by (simp add: transport_contract_def example_defs ext_defs)
  have le: "trunc_len (wsi ?w) \<noteq> 0" "(4::nat) \<le> trunc_len (wsi ?w)"
    by (simp_all add: example_defs)
  have ext: "\<not> LWS_WITHOUT_EXTENSIONS build_ext"
    "fst (lws_ext_cb_packet_tx_do_send (env_ext_sends 2) ?w 1000 (cast_int 4)) = 2"
    "(2::int) \<le> cast_int 4"
    by (simp_all add: example_defs ext_defs cast_int_def)
  have ev: "trunc_offset (wsi (snd (lws_issue_raw build_ext (env_ext_sends 2) ?w 1000 4))) = 2"
    "trunc_len (wsi (snd (lws_issue_raw build_ext (env_ext_sends 2) ?w 1000 4))) = 2"
    by (simp_all add: issue_raw_defs example_defs ext_defs)
  from issue_raw_preserves_trunc_invariant [OF inv tc, of 4 1000] le ext
  have "trunc_invariant (wsi (snd (lws_issue_raw build_ext (env_ext_sends 2) ?w 1000 4)))"
    by simp
  with inv tc le ext ev show ?thesis by simp
qed

text \<open>Claim C4.  No truncation is pending, the call is not stopped at entry, no extension
  takes the send over, and the transport answers \<open>r\<close>: \<open>n\<close> bytes accepted with
  \<open>0 \<le> n < len\<close>, or retry later, taken as \<open>n = 0\<close>.  Then if the call leaves
  \<open>trunc_alloc\<close> NULL (the buffer had to be allocated and the allocation failed) it returns
  \<open>-1\<close>; otherwise, the buffer not overlapping the bytes to copy, it returns \<open>len\<close>, with
  \<open>trunc_offset = 0\<close>, \<open>trunc_len = len - n\<close>, a buffer of at least \<open>len - n\<close> bytes that holds
  exactly \<open>buf[n..len-1]\<close>, and one more writable notification armed.\<close>

theorem issue_raw_new_truncation:
  assumes ok: "ssl_consts_ok b"
    and entry: "\<not> could_have_pending (wsi w)" "trunc_len (wsi w) = 0"
      "state (wsi w) \<noteq> LWSS_FLUSHING_SEND_BEFORE_CLOSE"
    and len: "0 < len" "len < 2 ^ 31"
    and ext: "LWS_WITHOUT_EXTENSIONS b \<or> lws_ext_cb_packet_tx_do_send e w buf (cast_int len) = (0, buf)"
    and r: "r = lws_ssl_capable_write e w buf (cast_int (limit_sending b w len))"
    and acc: "accepted b r n" and rlt: "r < int len"
    and res: "lws_issue_raw b e w buf len = (out, w')"
  shows "(trunc_alloc (wsi w') = 0 \<longrightarrow> out = Return (- 1)) \<and>
         (trunc_alloc (wsi w') \<noteq> 0 \<and>
          \<not> regions_overlap (trunc_alloc (wsi w')) (buf + int n) (len - n) \<longrightarrow>
            out = Return (int len) \<and> trunc_offset (wsi w') = 0 \<and>
            trunc_len (wsi w') = len - n \<and> len - n \<le> trunc_alloc_len (wsi w') \<and>
            read_bytes (mem w') (trunc_alloc (wsi w')) (len - n) =
              read_bytes (mem w) (buf + int n) (len - n) \<and>
            writable_rearms (trace w') = writable_rearms (trace w) + 1)"
  using issue_raw_truncates [OF assms] .

text \<open>Witness for C4: the transport accepts 3 of 10 bytes; the 7 others are buffered.\<close>

theorem issue_raw_new_truncation_witness:
  "ssl_consts_ok build_lp64 \<and>
   \<not> could_have_pending (wsi (world_of conn_idle)) \<and>
   trunc_len (wsi (world_of conn_idle)) = 0 \<and>
   state (wsi (world_of conn_idle)) \<noteq> LWSS_FLUSHING_SEND_BEFORE_CLOSE \<and>
   LWS_WITHOUT_EXTENSIONS build_lp64 \<and>
   lws_ssl_capable_write (env_tx 3 5000) (world_of conn_idle) 2000
     (cast_int (limit_sending build_lp64 (world_of conn_idle) 10)) = 3 \<and>
   accepted build_lp64 3 3 \<and>
   fst (lws_issue_raw build_lp64 (env_tx 3 5000) (world_of conn_idle) 2000 10) = Return 10 \<and>
   trunc_alloc (wsi (snd (lws_issue_raw build_lp64 (env_tx 3 5000) (world_of conn_idle) 2000 10))) = 5000 \<and>
   trunc_offset (wsi (snd (lws_issue_raw build_lp64 (env_tx 3 5000) (world_of conn_idle) 2000 10))) = 0 \<and>
   trunc_len (wsi (snd (lws_issue_raw build_lp64 (env_tx 3 5000) (world_of conn_idle) 2000 10))) = 7 \<and>
   7 \<le> trunc_alloc_len (wsi (snd (lws_issue_raw build_lp64 (env_tx 3 5000) (world_of conn_idle) 2000 10))) \<and>
   read_bytes (mem (snd (lws_issue_raw build_lp64 (env_tx 3 5000) (world_of conn_idle) 2000 10))) 5000 7 =
     read_bytes (mem (world_of conn_idle)) 2003 7 \<and>
   writable_rearms (trace (snd (lws_issue_raw build_lp64 (env_tx 3 5000) (world_of conn_idle) 2000 10))) = 1"
proof -
  let ?res = "lws_issue_raw build_lp64 (env_tx 3 5000) (world_of conn_idle) 2000 10"
  have res: "?res = (fst ?res, snd ?res)" by simp
  have ok: "ssl_consts_ok build_lp64" by (simp add: ssl_consts_ok_def example_defs)
  have entry: "\<not> could_have_pending (wsi (world_of conn_idle))"
    "trunc_len (wsi (world_of conn_idle)) = 0"
    "state (wsi (world_of conn_idle)) \<noteq> LWSS_FLUSHING_SEND_BEFORE_CLOSE"
    by (simp_all add: example_defs)
  have len: "(0::nat) < 10" "(10::nat) < 2 ^ 31" by simp_all
  have ext: "LWS_WITHOUT_EXTENSIONS build_lp64" by (simp add: example_defs)
  have r: "3 = lws_ssl_capable_write (env_tx 3 5000) (world_of conn_idle) 2000
     (cast_int (limit_sending build_lp64 (world_of conn_idle) 10))"
    by (simp add: issue_raw_defs example_defs)
  have acc: "accepted build_lp64 3 3" by (simp add: accepted_def)
  have rlt: "(3::int) < int 10" by simp
  have al: "trunc_alloc (wsi (snd ?res)) = 5000"
    by (simp add: issue_raw_defs example_defs)
  have no: "\<not> regions_overlap (trunc_alloc (wsi (snd ?res))) (2000 + int 3) (10 - 3)"
    by (simp add: al regions_overlap_def)
  from issue_raw_new_truncation [OF ok entry len disjI1 [OF ext] r acc rlt res] al no
  have "fst ?res = Return (int 10) \<and> trunc_offset (wsi (snd ?res)) = 0 \<and>
            trunc_len (wsi (snd ?res)) = 10 - 3 \<and> 10 - 3 \<le> trunc_alloc_len (wsi (snd ?res)) \<and>
            read_bytes (mem (snd ?res)) (trunc_alloc (wsi (snd ?res))) (10 - 3) =
              read_bytes (mem (world_of conn_idle)) (2000 + int 3) (10 - 3) \<and>
            writable_rearms (trace (snd ?res)) = writable_rearms (trace (world_of conn_idle)) + 1"
    by simp
  moreover have "writable_rearms (trace (world_of conn_idle)) = 0" by (simp add: world_of_def)
  ultimately show ?thesis using ok entry ext r [symmetric] acc al
    by simp
qed


subsection \<open>The cap on what is offered\<close>

lemma limit_sending_cap:
  "limit_sending b w len \<le>
     max (tx_packet_size (protocol (wsi w))) (max (rx_buffer_size (protocol (wsi w))) (pt_serv_buf_size w))
       + LWS_PRE b + 4"
proof -
  let ?tx = "tx_packet_size (protocol (wsi w))" and ?rx = "rx_buffer_size (protocol (wsi w))"
  define n0 where "n0 = (if ?tx \<noteq> 0 then ?tx mod 2 ^ 32
                         else if ?rx mod 2 ^ 32 = 0 then pt_serv_buf_size w else ?rx mod 2 ^ 32)"
  have a: "?tx mod 2 ^ 32 \<le> ?tx" "?rx mod 2 ^ 32 \<le> ?rx" "len mod 2 ^ 32 \<le> len"
    by simp_all
  then have n0: "n0 \<le> max ?tx (max ?rx (pt_serv_buf_size w))"
    unfolding n0_def by (auto simp add: max_def)
  have eq: "limit_sending b w len =
      (if add_u32 n0 (LWS_PRE b + 4) > len then len mod 2 ^ 32 else add_u32 n0 (LWS_PRE b + 4))"
    unfolding limit_sending_def Let_def cast_uint_cast_int n0_def by auto
  have "limit_sending b w len \<le> add_u32 n0 (LWS_PRE b + 4)"
    unfolding eq using a(3) by auto
  with add_u32_le [of n0 "LWS_PRE b + 4"] n0 show ?thesis by linarith
qed

lemma issue_raw_calls:
  "transport_calls (trace (snd (lws_issue_raw b e w buf len))) = transport_calls (trace w) \<or>
   (\<exists>a. transport_calls (trace (snd (lws_issue_raw b e w buf len))) =
          transport_calls (trace w) @ [(a, cast_int (limit_sending b w len))])"
  by (auto simp add: lws_issue_raw_def Let_def handle_truncated_send_frame issue_raw_socket_calls
      split: prod.splits)

text \<open>Claim C5.  A call makes at most one transport call; what it offers is at most
  \<open>len\<close> and at most \<open>max(tx_packet_size, rx_buffer_size, pt_serv_buf_size) + LWS_PRE + 4\<close>
  (the source takes the first of the three sizes that is not zero).  When the cap is below
  \<open>len\<close> on a connection with no truncation pending and the transport accepts \<open>n\<close> of the
  bytes offered, the same call returns \<open>len\<close> and every byte \<open>buf[j]\<close> beyond the cap is in
  the truncation buffer, at index \<open>j - n\<close>.\<close>

theorem issue_raw_rate_cap:
  assumes res: "lws_issue_raw b e w buf len = (out, w')"
  shows "(transport_calls (trace w') = transport_calls (trace w) \<or>
          (\<exists>a. transport_calls (trace w') =
                 transport_calls (trace w) @ [(a, cast_int (limit_sending b w len))])) \<and>
         cast_int (limit_sending b w len) \<le> int len \<and>
         cast_int (limit_sending b w len) \<le>
           int (max (tx_packet_size (protocol (wsi w)))
                 (max (rx_buffer_size (protocol (wsi w))) (pt_serv_buf_size w)))
             + int (LWS_PRE b) + 4 \<and>
         (ssl_consts_ok b \<and> \<not> could_have_pending (wsi w) \<and> trunc_len (wsi w) = 0 \<and>
          state (wsi w) \<noteq> LWSS_FLUSHING_SEND_BEFORE_CLOSE \<and> len < 2 ^ 31 \<and>
          (LWS_WITHOUT_EXTENSIONS b \<or>
             lws_ext_cb_packet_tx_do_send e w buf (cast_int len) = (0, buf)) \<and>
          accepted b (lws_ssl_capable_write e w buf (cast_int (limit_sending b w len))) n \<and>
          int n \<le> cast_int (limit_sending b w len) \<and> limit_sending b w len < len \<and>
          trunc_alloc (wsi w') \<noteq> 0 \<and>
          \<not> regions_overlap (trunc_alloc (wsi w')) (buf + int n) (len - n) \<longrightarrow>
            out = Return (int len) \<and> trunc_len (wsi w') = len - n \<and>
            (\<forall>j. limit_sending b w len \<le> j \<and> j < len \<longrightarrow>
                 mem w' (trunc_alloc (wsi w') + int (j - n)) = mem w (buf + int j)))"
proof (intro conjI impI)
  show "transport_calls (trace w') = transport_calls (trace w) \<or>
          (\<exists>a. transport_calls (trace w') =
                 transport_calls (trace w) @ [(a, cast_int (limit_sending b w len))])"
    using issue_raw_calls [of b e w buf len] res by simp
  show "cast_int (limit_sending b w len) \<le> int len"
    using cast_int_le [of "limit_sending b w len"] limit_sending_le [of b w len] by linarith
  show "cast_int (limit_sending b w len) \<le>
           int (max (tx_packet_size (protocol (wsi w)))
                 (max (rx_buffer_size (protocol (wsi w))) (pt_serv_buf_size w)))
             + int (LWS_PRE b) + 4"
    using cast_int_le [of "limit_sending b w len"] limit_sending_cap [of b w len] by linarith
next
  assume h: "ssl_consts_ok b \<and> \<not> could_have_pending (wsi w) \<and> trunc_len (wsi w) = 0 \<and>
          state (wsi w) \<noteq> LWSS_FLUSHING_SEND_BEFORE_CLOSE \<and> len < 2 ^ 31 \<and>
          (LWS_WITHOUT_EXTENSIONS b \<or>
             lws_ext_cb_packet_tx_do_send e w buf (cast_int len) = (0, buf)) \<and>
          accepted b (lws_ssl_capable_write e w buf (cast_int (limit_sending b w len))) n \<and>
          int n \<le> cast_int (limit_sending b w len) \<and> limit_sending b w len < len \<and>
          trunc_alloc (wsi w') \<noteq> 0 \<and>
          \<not> regions_overlap (trunc_alloc (wsi w')) (buf + int n) (len - n)"
  define r where "r = lws_ssl_capable_write e w buf (cast_int (limit_sending b w len))"
  from h have acc: "accepted b r n" by (simp add: r_def)
  from h have nlt: "n < len"
    using cast_int_le [of "limit_sending b w len"] by linarith
  have rlt: "r < int len"
    using acc nlt h by (auto simp add: accepted_def ssl_consts_ok_def)
  from h nlt have len: "0 < len" "len < 2 ^ 31" by auto
  from h have ok: "ssl_consts_ok b" and entry: "\<not> could_have_pending (wsi w)" "trunc_len (wsi w) = 0"
      "state (wsi w) \<noteq> LWSS_FLUSHING_SEND_BEFORE_CLOSE"
    and ext: "LWS_WITHOUT_EXTENSIONS b \<or> lws_ext_cb_packet_tx_do_send e w buf (cast_int len) = (0, buf)"
    by simp_all
  from issue_raw_truncates [OF ok entry len ext r_def acc rlt res] h
  have t: "out = Return (int len)" "trunc_len (wsi w') = len - n"
    "read_bytes (mem w') (trunc_alloc (wsi w')) (len - n) = read_bytes (mem w) (buf + int n) (len - n)"
    by simp_all
  show "out = Return (int len)" by (rule t(1))
  show "trunc_len (wsi w') = len - n" by (rule t(2))
  show "\<forall>j. limit_sending b w len \<le> j \<and> j < len \<longrightarrow>
                 mem w' (trunc_alloc (wsi w') + int (j - n)) = mem w (buf + int j)"
  proof (intro allI impI)
    fix j assume j: "limit_sending b w len \<le> j \<and> j < len"
    with h have nj: "n \<le> j"
      using cast_int_le [of "limit_sending b w len"] by linarith
    with j have "j - n < len - n" by linarith
    from read_bytes_nth [OF t(3) this] nj
    show "mem w' (trunc_alloc (wsi w') + int (j - n)) = mem w (buf + int j)"
      by (simp add: algebra_simps)
  qed
qed

text \<open>Witness for C5: a hint of 4 bytes caps the 30 bytes of the call at 24; the
  transport takes the 24, and bytes 24 to 29 are in the truncation buffer.\<close>

theorem issue_raw_rate_cap_witness:
  "transport_calls (trace (snd (lws_issue_raw build_lp64 (env_tx 24 5000) (world_of conn_hint) 2000 30))) =
     [(2000, 24)] \<and>
   cast_int (limit_sending build_lp64 (world_of conn_hint) 30) = 24 \<and>
   ssl_consts_ok build_lp64 \<and> \<not> could_have_pending (wsi (world_of conn_hint)) \<and>
   trunc_len (wsi (world_of conn_hint)) = 0 \<and>
   state (wsi (world_of conn_hint)) \<noteq> LWSS_FLUSHING_SEND_BEFORE_CLOSE \<and>
   LWS_WITHOUT_EXTENSIONS build_lp64 \<and>
   accepted build_lp64 (lws_ssl_capable_write (env_tx 24 5000) (world_of conn_hint) 2000
      (cast_int (limit_sending build_lp64 (world_of conn_hint) 30))) 24 \<and>
   limit_sending build_lp64 (world_of conn_hint) 30 < 30 \<and>
   trunc_alloc (wsi (snd (lws_issue_raw build_lp64 (env_tx 24 5000) (world_of conn_hint) 2000 30))) = 5000 \<and>
   fst (lws_issue_raw build_lp64 (env_tx 24 5000) (world_of conn_hint) 2000 30) = Return 30 \<and>
   trunc_len (wsi (snd (lws_issue_raw build_lp64 (env_tx 24 5000) (world_of conn_hint) 2000 30))) = 6 \<and>
   mem (snd (lws_issue_raw build_lp64 (env_tx 24 5000) (world_of conn_hint) 2000 30)) 5000 =
     mem (world_of conn_hint) 2024 \<and>
   mem (snd (lws_issue_raw build_lp64 (env_tx 24 5000) (world_of conn_hint) 2000 30)) 5005 =
     mem (world_of conn_hint) 2029"
proof -
  let ?w = "world_of conn_hint"
  let ?res = "lws_issue_raw build_lp64 (env_tx 24 5000) ?w 2000 30"
  have res: "?res = (fst ?res, snd ?res)" by simp
  have lim: "limit_sending build_lp64 ?w 30 = 24"
    by (simp add: issue_raw_defs example_defs conn_hint_def)
  have calls: "transport_calls (trace (snd ?res)) = [(2000, 24)]"
    by (simp add: issue_raw_defs example_defs conn_hint_def)
  have ok: "ssl_consts_ok build_lp64" by (simp add: ssl_consts_ok_def example_defs)
  have entry: "\<not> could_have_pending (wsi ?w)" "trunc_len (wsi ?w) = 0"
    "state (wsi ?w) \<noteq> LWSS_FLUSHING_SEND_BEFORE_CLOSE"
    by (simp_all add: example_defs conn_hint_def)
  have ext: "LWS_WITHOUT_EXTENSIONS build_lp64" by (simp add: example_defs)
  have acc: "accepted build_lp64 (lws_ssl_capable_write (env_tx 24 5000) ?w 2000
      (cast_int (limit_sending build_lp64 ?w 30))) 24"
    by (simp add: lim accepted_def cast_int_def env_tx_def)
  have al: "trunc_alloc (wsi (snd ?res)) = 5000"
    by (simp add: issue_raw_defs example_defs conn_hint_def)
  have no: "\<not> regions_overlap (trunc_alloc (wsi (snd ?res))) (2000 + int 24) (30 - 24)"
    by (simp add: al regions_overlap_def)
  have hyps: "ssl_consts_ok build_lp64 \<and> \<not> could_have_pending (wsi ?w) \<and> trunc_len (wsi ?w) = 0 \<and>
          state (wsi ?w) \<noteq> LWSS_FLUSHING_SEND_BEFORE_CLOSE \<and> (30::nat) < 2 ^ 31 \<and>
          (LWS_WITHOUT_EXTENSIONS build_lp64 \<or>
             lws_ext_cb_packet_tx_do_send (env_tx 24 5000) ?w 2000 (cast_int 30) = (0, 2000)) \<and>
          accepted build_lp64 (lws_ssl_capable_write (env_tx 24 5000) ?w 2000
             (cast_int (limit_sending build_lp64 ?w 30))) 24 \<and>
          int 24 \<le> cast_int (limit_sending build_lp64 ?w 30) \<and> limit_sending build_lp64 ?w 30 < 30 \<and>
          trunc_alloc (wsi (snd ?res)) \<noteq> 0 \<and>
          \<not> regions_overlap (trunc_alloc (wsi (snd ?res))) (2000 + int 24) (30 - 24)"
    using ok entry ext acc no by (simp add: lim al cast_int_def)
  from issue_raw_rate_cap [OF res, where n = 24] hyps
  have c: "fst ?res = Return (int 30) \<and> trunc_len (wsi (snd ?res)) = 30 - 24 \<and>
            (\<forall>j. limit_sending build_lp64 ?w 30 \<le> j \<and> j < 30 \<longrightarrow>
                 mem (snd ?res) (trunc_alloc (wsi (snd ?res)) + int (j - 24)) = mem ?w (2000 + int j))"
    by blast
  then have q: "\<And>j. limit_sending build_lp64 ?w 30 \<le> j \<and> j < 30 \<Longrightarrow>
      mem (snd ?res) (trunc_alloc (wsi (snd ?res)) + int (j - 24)) = mem ?w (2000 + int j)"
    by blast
  from q [of 24] q [of 29] lim
  have "mem (snd ?res) (trunc_alloc (wsi (snd ?res)) + int (24 - 24)) = mem ?w (2000 + int 24)"
    "mem (snd ?res) (trunc_alloc (wsi (snd ?res)) + int (29 - 24)) = mem ?w (2000 + int 29)"
    by simp_all
  then have m: "mem (snd ?res) 5000 = mem ?w 2024" "mem (snd ?res) 5005 = mem ?w 2029"
    by (simp_all add: al)
  from c have "fst ?res = Return 30" "trunc_len (wsi (snd ?res)) = 6" by simp_all
  with calls lim ok entry ext acc al m show ?thesis
    by (simp add: cast_int_def)
qed


subsection \<open>lws_write: delegation to a parent\<close>

lemma lws_write_parent_carries_io:
  assumes "parent_carries_io (wsi w)"
    and "child_write_via_parent e w \<lparr>pas_buf = buf, pas_len = len, pas_wp = wp\<rparr> = (r, w')"
  shows "lws_write b e w buf len wp = (if r \<noteq> 0 then Return 1 else Return (cast_int len), w')"
  using assms by (simp add: lws_write_def lws_write_assemble_def)

text \<open>Claim C7.  The claim holds up to the return value on failure: when the parent's
  callback returns non-zero, \<^verbatim>\<open>lws_write\<close> returns 1 (line 230), which is not negative.
  At the input below the callback fails with \<open>-1\<close> on a write of 10 bytes, and the caller
  is told that one byte was handled.\<close>

theorem lws_write_parent_failure_returns_1:
  "parent_carries_io (wsi (world_of conn_child)) \<and>
   child_write_via_parent env_parent_fails (world_of conn_child)
     \<lparr>pas_buf = 2000, pas_len = 10, pas_wp = 0\<rparr> = (- 1, world_of conn_child) \<and>
   lws_write build_lp64 env_parent_fails (world_of conn_child) 2000 10 0 =
     (Return 1, world_of conn_child)"
  by (simp add: lws_write_def lws_write_assemble_def env_parent_fails_def conn_child_def
      example_defs)

subsection \<open>lws_write: masking\<close>



lemma frame_mask_loop_outside:
  "frame_mask_loop k msk d n lim (m, idx) = (m', idx') \<Longrightarrow> a < d + n \<Longrightarrow> m' a = m a"
proof (induction k msk d n lim "(m, idx)" arbitrary: m idx rule: frame_mask_loop.induct)
  case (1 k msk d n lim m idx)
  show ?case
  proof (cases "n < lim")
    case False
    with "1.prems" show ?thesis by auto
  next
    case True
    let ?m1 = "m(d + n := m (d + n) XOR msk ! (idx AND 3))"
    from True "1.prems" have "frame_mask_loop k msk d (n + 1) lim (?m1, (idx + 1) mod 2 ^ k) = (m', idx')"
      by (simp del: frame_mask_loop.simps add: frame_mask_loop.simps [of k msk d n lim])
    from "1.hyps" [OF True this] "1.prems"(2) have "m' a = ?m1 a" by simp
    with "1.prems"(2) show ?thesis by simp
  qed
qed

lemma write_bytes_spec:
  "write_bytes m a xs a' = (if a \<le> a' \<and> a' < a + int (length xs) then xs ! nat (a' - a) else m a')"
proof (induction xs arbitrary: m a)
  case Nil
  then show ?case by auto
next
  case (Cons x xs)
  have e: "a + 1 \<le> a' \<Longrightarrow> nat (a' - a) = Suc (nat (a' - (a + 1)))" by linarith
  have n: "nat (a' - a) = 0 \<longleftrightarrow> a' \<le> a" by linarith
  show ?case
    by (simp add: Cons.IH nth_Cons' n) (auto simp add: e)
qed

lemma read_bytes_write_bytes: "read_bytes (write_bytes m a xs) a (length xs) = xs"
  by (rule nth_equalityI) (simp_all add: read_bytes_def write_bytes_spec)














lemmas write_defs =
  lws_write_def lws_write_assemble_def lws_write_draining_def is_http_wp_def ws_gate_closed_def
  lws_write_payload_tx_def payload_tx_ext_def ws_opcode_def ws_frame_header_def
  lws_0405_frame_mask_generate_def do_more_inside_frame_def lws_write_send_raw_def set_ws_def
  add_size_def cast_size_def
  LWSWSOPC_CONTINUATION_def LWSWSOPC_TEXT_FRAME_def LWSWSOPC_BINARY_FRAME_def
  LWSWSOPC_CLOSE_def LWSWSOPC_PING_def LWSWSOPC_PONG_def




subsection \<open>lws_write: the frame header\<close>

lemma be_bytes_2: "be_bytes 2 L = [of_nat (drop_bit 8 L), of_nat L]"
proof -
  have "be_bytes (Suc (Suc 0)) L = [of_nat (drop_bit 8 L), of_nat L]"
    by (simp add: drop_bit_eq_div)
  then show ?thesis by (simp only: numeral_2_eq_2)
qed

lemma be_bytes_8:
  "be_bytes 8 L = [of_nat (drop_bit 56 L), of_nat (drop_bit 48 L), of_nat (drop_bit 40 L),
     of_nat (drop_bit 32 L), of_nat (drop_bit 24 L), of_nat (drop_bit 16 L),
     of_nat (drop_bit 8 L), of_nat L]"
proof -
  have e: "(8::nat) = Suc (Suc (Suc (Suc (Suc (Suc (Suc (Suc 0)))))))" by simp
  have "be_bytes (Suc (Suc (Suc (Suc (Suc (Suc (Suc (Suc 0)))))))) L =
     [of_nat (drop_bit 56 L), of_nat (drop_bit 48 L), of_nat (drop_bit 40 L),
     of_nat (drop_bit 32 L), of_nat (drop_bit 24 L), of_nat (drop_bit 16 L),
     of_nat (drop_bit 8 L), of_nat L]"
    by (simp add: drop_bit_eq_div)
  then show ?thesis by (simp only: e)
qed

lemma foldl_be_bytes:
  "foldl (\<lambda>a x. a * 256 + unat x) a0 (be_bytes k L) = a0 * 256 ^ k + L mod 256 ^ k"
proof (induction k arbitrary: a0)
  case 0
  then show ?case by simp
next
  case (Suc k)
  have u: "unat (of_nat (L div 256 ^ k) :: byte) = (L div 256 ^ k) mod 256"
    by (simp add: unat_of_nat)
  have "L mod (256 ^ k * 256) = 256 ^ k * (L div 256 ^ k mod 256) + L mod 256 ^ k"
    by (rule mod_mult2_eq)
  then have m: "L mod 256 ^ Suc k = (L div 256 ^ k) mod 256 * 256 ^ k + L mod 256 ^ k"
    by (simp add: mult.commute)
  show ?case
    unfolding be_bytes.simps foldl_Cons Suc.IH u m
    by (simp add: algebra_simps)
qed

lemma be_value_be_bytes: "L < 256 ^ k \<Longrightarrow> be_value (be_bytes k L) = L"
  by (simp add: be_value_def foldl_be_bytes)

lemma and_7f: "n < 128 \<Longrightarrow> (n::nat) AND 0x7f = n"
proof -
  assume "n < 128"
  then have "take_bit 7 n = n" by (simp add: take_bit_nat_eq_self)
  then show ?thesis by (simp add: take_bit_eq_mask mask_eq_exp_minus_1)
qed

lemma low7_plain: "n < 128 \<Longrightarrow> unat ((of_nat n :: byte) AND 0x7f) = n"
proof -
  assume a: "n < 128"
  have "(of_nat n :: byte) AND 0x7f = of_nat (n AND 0x7f)"
    by (simp add: of_nat_and_eq)
  with a show ?thesis by (simp add: and_7f unat_of_nat)
qed


lemma not_bit7: "n < 128 \<Longrightarrow> \<not> bit (of_nat n :: byte) 7"
proof -
  assume "n < 128"
  then have "\<not> bit n 7" by (simp add: bit_iff_odd)
  then show ?thesis by (simp only: bit_of_nat_iff) simp
qed

lemma low7_masked: "n < 128 \<Longrightarrow> unat ((of_nat (n OR 0x80) :: byte) AND 0x7f) = n"
proof -
  assume a: "n < 128"
  have "(of_nat (n OR 0x80) :: byte) AND 0x7f = (of_nat n OR 0x80) AND 0x7f"
    by (simp add: of_nat_or_eq)
  also have "\<dots> = (of_nat n AND 0x7f) OR (0x80 AND 0x7f)"
    by (rule bit.conj_disj_distrib2)
  also have "\<dots> = of_nat n AND 0x7f" by simp
  finally show ?thesis using a by (simp add: low7_plain)
qed

lemma bit7_masked: "bit (of_nat (n OR 0x80) :: byte) 7"
  by (simp add: of_nat_or_eq bit_or_iff)

lemma drop_56: "L < 2 ^ 63 \<Longrightarrow> drop_bit 56 L AND 0x7f = drop_bit 56 (L::nat)"
proof -
  assume "L < 2 ^ 63"
  then have "L div 2 ^ 56 < 128" by (simp add: less_mult_imp_div_less)
  then show ?thesis by (simp add: and_7f drop_bit_eq_div)
qed

lemma drop_hi: "L < 2 ^ 32 \<Longrightarrow> drop_bit 32 (L::nat) = 0 \<and> drop_bit 40 L = 0 \<and> drop_bit 48 L = 0 \<and> drop_bit 56 L = 0"
  by (simp add: drop_bit_eq_div)


lemma ws_opcode_cases:
  "ws_opcode b wp = Some opc \<Longrightarrow> opc = 0 \<or> opc = 1 \<or> opc = 2 \<or> opc = 8 \<or> opc = 9 \<or> opc = 10"
  by (auto simp add: ws_opcode_def Let_def LWSWSOPC_CONTINUATION_def LWSWSOPC_TEXT_FRAME_def
      LWSWSOPC_BINARY_FRAME_def LWSWSOPC_CLOSE_def LWSWSOPC_PING_def LWSWSOPC_PONG_def
      split: if_splits)

lemma first_byte:
  assumes "opc = 0 \<or> opc = 1 \<or> opc = 2 \<or> opc = 8 \<or> opc = 9 \<or> opc = (10::nat)"
  shows "bit (of_nat (opc OR 0x80) :: byte) 7 \<and> \<not> bit (of_nat opc :: byte) 7 \<and>
         unat ((of_nat (opc OR 0x80) :: byte) AND 0x0f) = opc \<and>
         unat ((of_nat opc :: byte) AND 0x0f) = opc"
  using assms by auto

lemma ws_frame_header_shape:
  assumes hd: "ws_frame_header b masked m0 buf len wp = Some (m', pre, dm)"
  shows "\<exists>opc. ws_opcode b wp = Some opc \<and>
           dm = (if masked then buf - 4 else 0) \<and>
           pre = (if masked then 4 else 0) + (if len < 126 then 2 else if len < 65536 then 4 else 10) \<and>
           m' (buf - int pre) = of_nat (if wp AND LWS_WRITE_NO_FIN b = 0 then opc OR 0x80 else opc) \<and>
           m' (buf - int pre + 1) =
             of_nat ((if len < 126 then len else if len < 65536 then 126 else 127) OR
                     (if masked then 0x80 else 0)) \<and>
           (126 \<le> len \<and> len < 65536 \<longrightarrow>
              m' (buf - int pre + 2) = of_nat (drop_bit 8 len) \<and> m' (buf - int pre + 3) = of_nat len) \<and>
           (65536 \<le> len \<longrightarrow>
              m' (buf - int pre + 2) = (if LP64 b then of_nat (drop_bit 56 len AND 0x7f) else 0) \<and>
              m' (buf - int pre + 3) = (if LP64 b then of_nat (drop_bit 48 len) else 0) \<and>
              m' (buf - int pre + 4) = (if LP64 b then of_nat (drop_bit 40 len) else 0) \<and>
              m' (buf - int pre + 5) = (if LP64 b then of_nat (drop_bit 32 len) else 0) \<and>
              m' (buf - int pre + 6) = of_nat (drop_bit 24 len) \<and>
              m' (buf - int pre + 7) = of_nat (drop_bit 16 len) \<and>
              m' (buf - int pre + 8) = of_nat (drop_bit 8 len) \<and>
              m' (buf - int pre + 9) = of_nat len)"
proof -
  from hd obtain opc where opc: "ws_opcode b wp = Some opc"
    by (auto simp add: ws_frame_header_def Let_def split: option.splits)
  consider "len < 126" | "126 \<le> len \<and> len < 65536" | "65536 \<le> len" by linarith
  then show ?thesis
  proof cases
    case 1
    with hd opc show ?thesis
      by (cases masked) (auto simp add: ws_frame_header_def Let_def)
  next
    case 2
    with hd opc show ?thesis
      by (cases masked) (auto simp add: ws_frame_header_def Let_def)
  next
    case 3
    with hd opc show ?thesis
      by (cases masked) (auto simp add: ws_frame_header_def Let_def)
  qed
qed

lemma read_bytes_2: "read_bytes m a 2 = [m a, m (a + 1)]"
  by (simp add: read_bytes_def upt_rec)

lemma read_bytes_4: "read_bytes m a 4 = [m a, m (a + 1), m (a + 2), m (a + 3)]"
  by (simp add: read_bytes_def upt_rec)

lemma read_bytes_8:
  "read_bytes m a 8 = [m a, m (a + 1), m (a + 2), m (a + 3), m (a + 4), m (a + 5), m (a + 6), m (a + 7)]"
  by (simp add: read_bytes_def upt_rec)

lemma read_bytes_hdr:
  "read_bytes m (h + 2) 2 = [m (h + 2), m (h + 3)]"
  "read_bytes m (h + 2) 4 = [m (h + 2), m (h + 3), m (h + 4), m (h + 5)]"
  "read_bytes m (h + 2) 8 =
     [m (h + 2), m (h + 3), m (h + 4), m (h + 5), m (h + 6), m (h + 7), m (h + 8), m (h + 9)]"
  by (simp_all add: read_bytes_2 read_bytes_4 read_bytes_8 add.commute)

lemma ws_frame_header_spec:
  assumes hd: "ws_frame_header b masked m0 buf len wp = Some (m', pre, dm)"
    and agree: "\<And>a. dm = 0 \<or> a < dm \<Longrightarrow> mm a = m' a"
    and lsz: "len < 2 ^ size_bits b"
    and l63: "LP64 b \<longrightarrow> len < 2 ^ 63"
    and h: "h = buf - int pre" and base: "base = pre - (if masked then 4 else 0)"
  shows "(len < 126 \<longrightarrow> base = 2 \<and> unat (mm (h + 1) AND 0x7f) = len) \<and>
         (126 \<le> len \<and> len < 65536 \<longrightarrow>
            base = 4 \<and> mm (h + 1) AND 0x7f = 126 \<and>
            read_bytes mm (h + 2) 2 = be_bytes 2 len) \<and>
         (65536 \<le> len \<longrightarrow>
            base = 10 \<and> mm (h + 1) AND 0x7f = 127 \<and>
            read_bytes mm (h + 2) 8 = be_bytes 8 len \<and>
            (\<not> LP64 b \<longrightarrow> read_bytes mm (h + 2) 4 = [0, 0, 0, 0])) \<and>
         (bit (mm h) 7 \<longleftrightarrow> wp AND LWS_WRITE_NO_FIN b = 0) \<and>
         (bit (mm (h + 1)) 7 \<longleftrightarrow> masked) \<and>
         ws_opcode b wp = Some (unat (mm h AND 0x0f))"
proof -
  from ws_frame_header_shape [OF hd] obtain opc where
    opc: "ws_opcode b wp = Some opc"
    and dm: "dm = (if masked then buf - 4 else 0)"
    and pre: "pre = (if masked then 4 else 0) + (if len < 126 then 2 else if len < 65536 then 4 else 10)"
    and b0: "m' h = of_nat (if wp AND LWS_WRITE_NO_FIN b = 0 then opc OR 0x80 else opc)"
    and b1: "m' (h + 1) =
             of_nat ((if len < 126 then len else if len < 65536 then 126 else 127) OR
                     (if masked then 0x80 else 0))"
    and mid: "126 \<le> len \<and> len < 65536 \<longrightarrow>
              m' (h + 2) = of_nat (drop_bit 8 len) \<and> m' (h + 3) = of_nat len"
    and big: "65536 \<le> len \<longrightarrow>
              m' (h + 2) = (if LP64 b then of_nat (drop_bit 56 len AND 0x7f) else 0) \<and>
              m' (h + 3) = (if LP64 b then of_nat (drop_bit 48 len) else 0) \<and>
              m' (h + 4) = (if LP64 b then of_nat (drop_bit 40 len) else 0) \<and>
              m' (h + 5) = (if LP64 b then of_nat (drop_bit 32 len) else 0) \<and>
              m' (h + 6) = of_nat (drop_bit 24 len) \<and>
              m' (h + 7) = of_nat (drop_bit 16 len) \<and>
              m' (h + 8) = of_nat (drop_bit 8 len) \<and>
              m' (h + 9) = of_nat len"
    unfolding h by blast
  have bs: "base = (if len < 126 then 2 else if len < 65536 then 4 else 10)"
    by (simp add: base pre)
  have ag: "\<And>k. k < base \<Longrightarrow> mm (h + int k) = m' (h + int k)"
    by (rule agree) (auto simp add: dm h pre bs split: if_splits)
  from ag [of 0] have a0: "mm h = m' h" by (simp add: bs)
  from ag [of 1] have a1: "mm (h + 1) = m' (h + 1)" by (simp add: bs)
  note oc = first_byte [OF ws_opcode_cases [OF opc]]
  have fin: "bit (mm h) 7 \<longleftrightarrow> wp AND LWS_WRITE_NO_FIN b = 0"
    using oc by (simp add: a0 b0)
  have op: "ws_opcode b wp = Some (unat (mm h AND 0x0f))"
    using oc by (simp add: a0 b0 opc)
  have c1: "len < 126 \<longrightarrow> base = 2 \<and> unat (mm (h + 1) AND 0x7f) = len"
    by (cases masked) (simp_all add: bs a1 b1 low7_masked low7_plain)
  have mk: "bit (mm (h + 1)) 7 \<longleftrightarrow> masked"
  proof (cases "len < 126")
    case True
    then have "len < 128" by simp
    with True show ?thesis
      by (cases masked) (simp_all add: a1 b1 bit7_masked not_bit7)
  next
    case False
    then show ?thesis by (cases masked) (simp_all add: a1 b1)
  qed
  have c2: "126 \<le> len \<and> len < 65536 \<longrightarrow>
            base = 4 \<and> mm (h + 1) AND 0x7f = 126 \<and>
            read_bytes mm (h + 2) 2 = be_bytes 2 len"
  proof
    assume r: "126 \<le> len \<and> len < 65536"
    then have b4: "base = 4" by (simp add: bs)
    from ag [of 2] ag [of 3] b4 mid r
    have "mm (h + 2) = of_nat (drop_bit 8 len)" "mm (h + 3) = of_nat len" by simp_all
    then have "read_bytes mm (h + 2) 2 = be_bytes 2 len"
      by (simp only: read_bytes_hdr be_bytes_2)
    moreover from r have "mm (h + 1) AND 0x7f = 126"
      by (cases masked) (simp_all add: a1 b1)
    ultimately show "base = 4 \<and> mm (h + 1) AND 0x7f = 126 \<and>
            read_bytes mm (h + 2) 2 = be_bytes 2 len"
      using b4 by simp
  qed
  have c3: "65536 \<le> len \<longrightarrow>
            base = 10 \<and> mm (h + 1) AND 0x7f = 127 \<and>
            read_bytes mm (h + 2) 8 = be_bytes 8 len \<and>
            (\<not> LP64 b \<longrightarrow> read_bytes mm (h + 2) 4 = [0, 0, 0, 0])"
  proof
    assume r: "65536 \<le> len"
    then have b10: "base = 10" by (simp add: bs)
    from r have l1: "mm (h + 1) AND 0x7f = 127"
      by (cases masked) (simp_all add: a1 b1)
    from ag [of 2] ag [of 3] ag [of 4] ag [of 5] ag [of 6] ag [of 7] ag [of 8] ag [of 9] b10
    have e: "mm (h + 2) = m' (h + 2)" "mm (h + 3) = m' (h + 3)" "mm (h + 4) = m' (h + 4)"
      "mm (h + 5) = m' (h + 5)" "mm (h + 6) = m' (h + 6)" "mm (h + 7) = m' (h + 7)"
      "mm (h + 8) = m' (h + 8)" "mm (h + 9) = m' (h + 9)"
      by simp_all
    have hi: "m' (h + 2) = of_nat (drop_bit 56 len) \<and> m' (h + 3) = of_nat (drop_bit 48 len) \<and>
              m' (h + 4) = of_nat (drop_bit 40 len) \<and> m' (h + 5) = of_nat (drop_bit 32 len)"
    proof (cases "LP64 b")
      case True
      with l63 have "len < 2 ^ 63" by simp
      from drop_56 [OF this] big r True show ?thesis by simp
    next
      case False
      with lsz have "len < 2 ^ 32" by (simp add: size_bits_def)
      from drop_hi [OF this] big r False show ?thesis by simp
    qed
    from big r have lo: "m' (h + 6) = of_nat (drop_bit 24 len)" "m' (h + 7) = of_nat (drop_bit 16 len)"
      "m' (h + 8) = of_nat (drop_bit 8 len)" "m' (h + 9) = of_nat len"
      by simp_all
    have rb: "read_bytes mm (h + 2) 8 = be_bytes 8 len"
      using hi lo by (simp only: read_bytes_hdr be_bytes_8 e)
    have z: "\<not> LP64 b \<longrightarrow> read_bytes mm (h + 2) 4 = [0, 0, 0, 0]"
    proof
      assume "\<not> LP64 b"
      with big r have "m' (h + 2) = 0" "m' (h + 3) = 0" "m' (h + 4) = 0" "m' (h + 5) = 0"
        by simp_all
      then show "read_bytes mm (h + 2) 4 = [0, 0, 0, 0]"
        by (simp only: read_bytes_hdr e)
    qed
    from b10 l1 rb z show "base = 10 \<and> mm (h + 1) AND 0x7f = 127 \<and>
            read_bytes mm (h + 2) 8 = be_bytes 8 len \<and>
            (\<not> LP64 b \<longrightarrow> read_bytes mm (h + 2) 4 = [0, 0, 0, 0])"
      by simp
  qed
  from c1 c2 c3 fin mk op show ?thesis by blast
qed

lemma do_more_inside_frame_below:
  assumes r: "do_more_inside_frame b e k w s dm len = Inr w'" and a: "dm = 0 \<or> a < dm"
  shows "mem w' a = mem w a"
proof (cases "k \<and> dm \<noteq> 0")
  case False
  with r show ?thesis
    by (auto simp add: do_more_inside_frame_def set_ws_def split: if_splits prod.splits)
next
  case True
  with a have lt: "a < dm" by simp
  from True r lt show ?thesis
    by (auto simp add: do_more_inside_frame_def set_ws_def write_bytes_spec
        simp del: frame_mask_loop.simps split: if_splits prod.splits
        dest!: frame_mask_loop_outside [where a = a])
qed

lemma cast_size_bound: "cast_size b i < 2 ^ size_bits b"
proof -
  have "i mod 2 ^ size_bits b < 2 ^ size_bits b" by simp
  moreover have "0 \<le> i mod 2 ^ size_bits b" by simp
  ultimately have "int (nat (i mod 2 ^ size_bits b)) < int (2 ^ size_bits b)" by simp
  then show ?thesis unfolding cast_size_def by (simp only: of_nat_less_iff)
qed

lemma payload_tx_len:
  "lws_write_payload_tx b e w s buf len wp wp1f = Inr (w1, s1, buf1, len1, wp1, wp1f1) \<Longrightarrow>
     len1 < 2 ^ size_bits b"
  by (auto simp add: lws_write_payload_tx_def Let_def cast_size_bound
      split: if_splits sum.splits prod.splits)

lemma assemble_header:
  assumes r: "lws_write_assemble b e w buf len wp = Inr d" and p: "d_pre d \<noteq> 0"
  shows "\<exists>m0 m' dm.
           ws_frame_header b (mode (wsi w) = LWSCM_WS_CLIENT) m0 (d_buf d) (d_len d) (d_wp d) =
             Some (m', d_pre d, dm) \<and>
           (\<forall>a. dm = 0 \<or> a < dm \<longrightarrow> mem (d_world d) a = m' a) \<and>
           d_len d < 2 ^ size_bits b"
proof -
  from r p obtain w0 s0 wp0 w1 s1 m' dm where
    pt: "lws_write_payload_tx b e w0 s0 buf len wp0 (wp0 AND 0x1f) =
           Inr (w1, s1, d_buf d, d_len d, d_wp d, d_wp1f d)"
    and hd: "ws_frame_header b (mode (wsi w) = LWSCM_WS_CLIENT) (mem w1) (d_buf d) (d_len d) (d_wp d) =
           Some (m', d_pre d, dm)"
    and mk: "do_more_inside_frame b e (mode (wsi w) = LWSCM_WS_CLIENT) (w1\<lparr>mem := m'\<rparr>) s1 dm (d_len d) =
           Inr (d_world d)"
    by (auto simp add: lws_write_assemble_def Let_def
        split: if_splits sum.splits prod.splits option.splits)
  from do_more_inside_frame_below [OF mk]
  have "\<forall>a. dm = 0 \<or> a < dm \<longrightarrow> mem (d_world d) a = m' a" by simp
  with hd payload_tx_len [OF pt] show ?thesis by blast
qed

text \<open>Claim C1.  Whenever \<^verbatim>\<open>lws_write\<close> reaches \<^verbatim>\<open>send_raw\<close> with a header synthesized
  (\<open>pre\<close> is not 0, which happens only outside a frame and for one of the six WebSocket
  opcodes), the bytes at \<open>h = buf - pre\<close> are that header for the length \<open>L\<close> and the \<open>wp\<close>
  in force at that point: its size without the four nonce bytes of client mode is 2 when
  \<open>L < 126\<close>, with the low seven bits of byte 1 equal to \<open>L\<close>; 4 when \<open>L < 65536\<close>, with
  indicator 126 and \<open>L\<close> in two bytes, big-endian; 10 otherwise, with indicator 127 and
  \<open>L\<close> in eight bytes, big-endian, the first four of them zero when the build is not
  \<^verbatim>\<open>__LP64__\<close>.  Bit 7 of byte 0 (FIN) is set exactly when \<open>wp\<close> lacks
  \<^verbatim>\<open>LWS_WRITE_NO_FIN\<close>; bit 7 of byte 1 is the mask bit of client mode; the low four bits
  of byte 0 are the opcode.  (\<open>L\<close> comes from an \<^verbatim>\<open>int\<close>, so the bound on it for an LP64
  build excludes only a negative token length.)\<close>

theorem lws_write_frame_header:
  assumes r: "lws_write_assemble b e w buf len wp = Inr d" and p: "d_pre d \<noteq> 0"
    and l63: "LP64 b \<longrightarrow> d_len d < 2 ^ 63"
    and h: "h = d_buf d - int (d_pre d)"
    and base: "base = d_pre d - (if mode (wsi w) = LWSCM_WS_CLIENT then 4 else 0)"
    and m: "m = mem (d_world d)"
  shows "(d_len d < 126 \<longrightarrow> base = 2 \<and> unat (m (h + 1) AND 0x7f) = d_len d) \<and>
         (126 \<le> d_len d \<and> d_len d < 65536 \<longrightarrow>
            base = 4 \<and> m (h + 1) AND 0x7f = 126 \<and>
            read_bytes m (h + 2) 2 = be_bytes 2 (d_len d)) \<and>
         (65536 \<le> d_len d \<longrightarrow>
            base = 10 \<and> m (h + 1) AND 0x7f = 127 \<and>
            read_bytes m (h + 2) 8 = be_bytes 8 (d_len d) \<and>
            (\<not> LP64 b \<longrightarrow> read_bytes m (h + 2) 4 = [0, 0, 0, 0])) \<and>
         (bit (m h) 7 \<longleftrightarrow> d_wp d AND LWS_WRITE_NO_FIN b = 0) \<and>
         (bit (m (h + 1)) 7 \<longleftrightarrow> mode (wsi w) = LWSCM_WS_CLIENT) \<and>
         ws_opcode b (d_wp d) = Some (unat (m h AND 0x0f))"
proof -
  from assemble_header [OF r p] obtain m0 m' dm where
    hd: "ws_frame_header b (mode (wsi w) = LWSCM_WS_CLIENT) m0 (d_buf d) (d_len d) (d_wp d) =
             Some (m', d_pre d, dm)"
    and ag: "\<And>a. dm = 0 \<or> a < dm \<Longrightarrow> m a = m' a"
    and lsz: "d_len d < 2 ^ size_bits b"
    unfolding m by blast
  from ws_frame_header_spec [OF hd ag lsz l63 h base] show ?thesis .
qed

text \<open>Witness for C1: binary frames of 200 and of 70000 bytes on a server-mode
  connection.\<close>

theorem lws_write_frame_header_witness:
  "(\<exists>d. lws_write_assemble build_lp64 (env_tx 0 0) (world_of conn_idle) 2000 200 1 = Inr d \<and>
        d_pre d = 4 \<and> d_len d = 200 \<and> d_buf d = 2000 \<and> d_wp d = 1 \<and>
        mode (wsi (world_of conn_idle)) \<noteq> LWSCM_WS_CLIENT \<and>
        mem (d_world d) 1997 AND 0x7f = 126 \<and>
        read_bytes (mem (d_world d)) 1998 2 = be_bytes 2 200 \<and>
        bit (mem (d_world d) 1996) 7 \<and> 1 AND LWS_WRITE_NO_FIN build_lp64 = 0 \<and>
        \<not> bit (mem (d_world d) 1997) 7 \<and>
        ws_opcode build_lp64 1 = Some (unat (mem (d_world d) 1996 AND 0x0f))) \<and>
   (\<exists>d. lws_write_assemble build_lp64 (env_tx 0 0) (world_of conn_idle) 2000 70000 1 = Inr d \<and>
        d_pre d = 10 \<and> d_len d = 70000 \<and> d_buf d = 2000 \<and> d_wp d = 1 \<and>
        LP64 build_lp64 \<and> (70000::nat) < 2 ^ 63 \<and>
        mem (d_world d) 1991 AND 0x7f = 127 \<and>
        read_bytes (mem (d_world d)) 1992 8 = be_bytes 8 70000)"
proof -
  let ?w = "world_of conn_idle" and ?e = "env_tx 0 0"
  have srv: "mode (wsi ?w) \<noteq> LWSCM_WS_CLIENT" by (simp add: example_defs)
  have lp: "LP64 build_lp64" by (simp add: build_lp64_def)
  have nf: "1 AND LWS_WRITE_NO_FIN build_lp64 = 0" by (simp add: build_lp64_def)
  have "\<exists>d. lws_write_assemble build_lp64 ?e ?w 2000 200 1 = Inr d \<and>
        d_pre d = 4 \<and> d_len d = 200 \<and> d_buf d = 2000 \<and> d_wp d = 1"
    by (simp add: write_defs Let_def example_defs ws_idle_def cast_int_def size_bits_def)
  then obtain d where d: "lws_write_assemble build_lp64 ?e ?w 2000 200 1 = Inr d"
    "d_pre d = 4" "d_len d = 200" "d_buf d = 2000" "d_wp d = 1"
    by blast
  have "\<exists>d. lws_write_assemble build_lp64 ?e ?w 2000 70000 1 = Inr d \<and>
        d_pre d = 10 \<and> d_len d = 70000 \<and> d_buf d = 2000 \<and> d_wp d = 1"
    by (simp add: write_defs Let_def example_defs ws_idle_def cast_int_def size_bits_def)
  then obtain d' where d': "lws_write_assemble build_lp64 ?e ?w 2000 70000 1 = Inr d'"
    "d_pre d' = 10" "d_len d' = 70000" "d_buf d' = 2000" "d_wp d' = 1"
    by blast
  have p: "d_pre d \<noteq> 0" and p': "d_pre d' \<noteq> 0" by (simp_all add: d d')
  have l: "LP64 build_lp64 \<longrightarrow> d_len d < 2 ^ 63" "LP64 build_lp64 \<longrightarrow> d_len d' < 2 ^ 63"
    by (simp_all add: d d')
  from lws_write_frame_header [OF d(1) p l(1) refl refl refl] srv
  have c: "mem (d_world d) 1997 AND 0x7f = 126"
    "read_bytes (mem (d_world d)) 1998 2 = be_bytes 2 200"
    "bit (mem (d_world d) 1996) 7 \<longleftrightarrow> 1 AND LWS_WRITE_NO_FIN build_lp64 = 0"
    "\<not> bit (mem (d_world d) 1997) 7"
    "ws_opcode build_lp64 1 = Some (unat (mem (d_world d) 1996 AND 0x0f))"
    by (simp_all add: d)
  from lws_write_frame_header [OF d'(1) p' l(2) refl refl refl]
  have c': "mem (d_world d') 1991 AND 0x7f = 127"
    "read_bytes (mem (d_world d')) 1992 8 = be_bytes 8 70000"
    by (simp_all add: d')
  from d srv c nf have one: "\<exists>d. lws_write_assemble build_lp64 ?e ?w 2000 200 1 = Inr d \<and>
        d_pre d = 4 \<and> d_len d = 200 \<and> d_buf d = 2000 \<and> d_wp d = 1 \<and>
        mode (wsi ?w) \<noteq> LWSCM_WS_CLIENT \<and>
        mem (d_world d) 1997 AND 0x7f = 126 \<and>
        read_bytes (mem (d_world d)) 1998 2 = be_bytes 2 200 \<and>
        bit (mem (d_world d) 1996) 7 \<and> 1 AND LWS_WRITE_NO_FIN build_lp64 = 0 \<and>
        \<not> bit (mem (d_world d) 1997) 7 \<and>
        ws_opcode build_lp64 1 = Some (unat (mem (d_world d) 1996 AND 0x0f))"
    by blast
  from d' lp c' have two: "\<exists>d. lws_write_assemble build_lp64 ?e ?w 2000 70000 1 = Inr d \<and>
        d_pre d = 10 \<and> d_len d = 70000 \<and> d_buf d = 2000 \<and> d_wp d = 1 \<and>
        LP64 build_lp64 \<and> (70000::nat) < 2 ^ 63 \<and>
        mem (d_world d) 1991 AND 0x7f = 127 \<and>
        read_bytes (mem (d_world d)) 1992 8 = be_bytes 8 70000"
    by auto
  from one two show ?thesis by (rule conjI)
qed

text \<open>Scenarios 1 and 2 of the spec, on a server-mode connection.\<close>

lemma scenario_short_text_frame:
  "\<exists>d. lws_write_assemble build_lp64 (env_tx 0 0) (world_of conn_idle) 2000 2 0 = Inr d \<and>
        d_pre d = 2 \<and> read_bytes (mem (d_world d)) (2000 - 2) 2 = [0x81, 0x02]"
  by (simp add: write_defs Let_def example_defs ws_idle_def cast_int_def size_bits_def read_bytes_2)

lemma scenario_medium_binary_frame:
  "\<exists>d. lws_write_assemble build_lp64 (env_tx 0 0) (world_of conn_idle) 2000 200 1 = Inr d \<and>
        d_pre d = 4 \<and> read_bytes (mem (d_world d)) (2000 - 4) 4 = [0x82, 0x7E, 0x00, 0xC8]"
  by (simp add: write_defs Let_def example_defs ws_idle_def cast_int_def size_bits_def read_bytes_4)

subsection \<open>lws_serve_http_file_fragment: the trailing boundary\<close>

lemma trailing_boundary_bytes: "trailing_boundary = [0x5f, 0x6c, 0x77, 0x73, 0x0d, 0x0a]"
  by (simp add: trailing_boundary_def bytes_of_def crlf_def)

lemma lws_snprintf_trailing_boundary:
  "lws_snprintf 6 trailing_boundary = ([0x5f, 0x6c, 0x77, 0x73, 0x0d, 0x00], 6)"
  by (simp add: lws_snprintf_def trailing_boundary_bytes)

lemma lws_snprintf_fits:
  "length txt < sz \<Longrightarrow> lws_snprintf sz txt = (txt @ [0], int (length txt))"
  by (simp add: lws_snprintf_def)

lemma file_read_10:
  "lws_vfs_file_read (env_tx 0 0) w p 10 =
     (0, [0x41, 0x41, 0x41, 0x41, 0x41, 0x41, 0x41, 0x41, 0x41, 0x41])"
  by (simp add: env_tx_def numeral_eq_Suc)

lemma part_header_second_range:
  "length (part_header (http conn_second_range)) = 69"
  by (simp add: part_header_def conn_second_range_def bytes_of_def crlf_def)

lemma range_enter_second_range:
  "range_enter build_lp64 (env_tx 0 0) (world_of conn_second_range) 8201 =
     Some ((world_of conn_second_range)
             \<lparr>wsi := conn_second_range
                \<lparr>http := (http conn_second_range)
                   \<lparr>filepos := 990,
                    range_http := (range_http (http conn_second_range))
                      \<lparr>range_budget := 10, range_inside := True\<rparr>\<rparr>\<rparr>,
              mem := write_bytes (mem (world_of conn_second_range)) 8201
                       (part_header (http conn_second_range) @ [0])\<rparr>,
           69, 8270)"
proof -
  have sz: "sub_u32 (pt_serv_buf_size (world_of conn_second_range))
              (LWS_H2_FRAME_HEADER_LENGTH build_lp64) = 4087"
    by (simp add: sub_u32_def example_defs)
  have fits: "lws_snprintf 4087 (part_header (http conn_second_range)) =
      (part_header (http conn_second_range) @ [0], 69)"
    by (simp add: lws_snprintf_fits part_header_second_range)
  have c: "wsi (world_of conn_second_range) = conn_second_range"
    by (simp add: world_of_def)
  have r: "range_count_ranges (range_http (http conn_second_range)) = 2"
    "\<not> range_inside (range_http (http conn_second_range))"
    "range_start (range_http (http conn_second_range)) = 990"
    "range_end (range_http (http conn_second_range)) = 999"
    "filepos (http conn_second_range) = 10"
    by (simp_all add: conn_second_range_def)
  have b: "LWS_WITH_RANGES build_lp64" by (simp add: build_lp64_def)
  have sk: "\<And>w off. lws_vfs_file_seek_cur (env_tx 0 0) w off = 0" by (simp add: env_tx_def)
  show ?thesis
    by (simp add: range_enter_def Let_def c r b sk sz fits sub_u64_def
        del: write_bytes.simps)
qed

text \<open>Claim C9.  The two ranges 0-9 and 990-999 of a file of 1000 bytes are asked for, and
  the pump makes the pass that enters the second range: it seeks, stores the part header
  of 69 bytes at \<open>pstart = 8201\<close>, reads the ten bytes of the range behind it at 8270, and,
  this being the final byte of the final range, appends the trailing boundary at 8280.
  The length passed to \<^verbatim>\<open>lws_write\<close> grows by 6, from 79 to 85, as the claim says, but the
  six bytes stored are \<open>5F 6C 77 73 0D 00\<close>: the size 6 given to \<^verbatim>\<open>lws_snprintf\<close> has
  room for five characters and the terminating NUL, so the LF of \<open>_lws CR LF\<close> is
  replaced by a NUL byte.\<close>

theorem file_fragment_trailing_boundary:
  "file_fragment_payload build_lp64 (env_tx 0 0) (world_of conn_second_range) =
     Write_fragment
       ((world_of conn_second_range)
          \<lparr>wsi := conn_second_range
             \<lparr>http := (http conn_second_range)
                \<lparr>filepos := 990,
                 range_http := (range_http (http conn_second_range))
                   \<lparr>range_budget := 10, range_inside := True\<rparr>\<rparr>\<rparr>,
           mem := write_bytes
                    (write_bytes
                       (write_bytes (mem (world_of conn_second_range)) 8201
                          (part_header (http conn_second_range) @ [0]))
                       8270 [0x41, 0x41, 0x41, 0x41, 0x41, 0x41, 0x41, 0x41, 0x41, 0x41])
                    8280 [0x5f, 0x6c, 0x77, 0x73, 0x0d, 0x00]\<rparr>)
       8201 85 (LWS_WRITE_HTTP_FINAL build_lp64) 10 \<and>
   read_bytes
     (write_bytes
        (write_bytes
           (write_bytes (mem (world_of conn_second_range)) 8201
              (part_header (http conn_second_range) @ [0]))
           8270 [0x41, 0x41, 0x41, 0x41, 0x41, 0x41, 0x41, 0x41, 0x41, 0x41])
        8280 [0x5f, 0x6c, 0x77, 0x73, 0x0d, 0x00])
     8280 6 = [0x5f, 0x6c, 0x77, 0x73, 0x0d, 0x00] \<and>
   trailing_boundary = [0x5f, 0x6c, 0x77, 0x73, 0x0d, 0x0a]"
proof -
  let ?w0 = "world_of conn_second_range"
  let ?c1 = "conn_second_range
             \<lparr>http := (http conn_second_range)
                \<lparr>filepos := 990,
                 range_http := (range_http (http conn_second_range))
                   \<lparr>range_budget := 10, range_inside := True\<rparr>\<rparr>\<rparr>"
  let ?m1 = "write_bytes (mem ?w0) 8201 (part_header (http conn_second_range) @ [0])"
  let ?w1 = "?w0\<lparr>wsi := ?c1, mem := ?m1\<rparr>"
  let ?data = "[0x41, 0x41, 0x41, 0x41, 0x41, 0x41, 0x41, 0x41, 0x41, 0x41] :: byte list"
  let ?tail = "[0x5f, 0x6c, 0x77, 0x73, 0x0d, 0x00] :: byte list"
  have ps: "serv_buf ?w0 = 8192"
    by (simp add: world_of_def)
  have ne: "filepos (http (wsi ?w0)) \<noteq> filelen (http (wsi ?w0))"
    by (simp add: world_of_def conn_second_range_def)
  have f1: "wsi ?w1 = ?c1" "mem ?w1 = ?m1" "pt_serv_buf_size ?w1 = 4096"
    by (simp_all add: world_of_def)
  have c1: "\<not> sending_chunked ?c1" "\<not> interpreting ?c1"
    "tx_packet_size (protocol ?c1) = 0" "tx_content_length (http ?c1) = 0"
    "filepos (http ?c1) = 990" "filelen (http ?c1) = 1000"
    "range_count_ranges (range_http (http ?c1)) = 2"
    "range_send_ctr (range_http (http ?c1)) = 1"
    "range_budget (range_http (http ?c1)) = 10"
    by (simp_all add: conn_second_range_def conn_idle_def)
  have c0: "\<not> sending_chunked conn_second_range" "\<not> interpreting conn_second_range"
    "tx_packet_size (protocol conn_second_range) = 0"
    "tx_content_length (http conn_second_range) = 0"
    "filelen (http conn_second_range) = 1000"
    "range_count_ranges (range_http (http conn_second_range)) = 2"
    "range_send_ctr (range_http (http conn_second_range)) = 1"
    by (simp_all add: conn_second_range_def conn_idle_def)
  have b: "LWS_WITH_RANGES build_lp64" "\<not> LWS_WITH_HTTP2 build_lp64"
    "LWS_H2_FRAME_HEADER_LENGTH build_lp64 = 9"
    by (simp_all add: build_lp64_def)
  have poss: "fragment_poss build_lp64 (env_tx 0 0) ?w1 69 = Some 10"
    by (simp add: fragment_poss_def Let_def f1 c1 c0 b sub_u64_def cast_uint_def
        del: write_bytes.simps)
  have step: "file_fragment_payload build_lp64 (env_tx 0 0) ?w0 =
      Write_fragment (?w1\<lparr>mem := write_bytes (write_bytes ?m1 8270 ?data) 8280 ?tail\<rparr>)
        8201 85 (LWS_WRITE_HTTP_FINAL build_lp64) 10"
    by (simp add: file_fragment_payload_def Let_def ps ne range_enter_second_range poss
        f1 c1 c0 b file_read_10 lws_snprintf_trailing_boundary sub_u64_def cast_int_def
        del: write_bytes.simps)
  have l6: "length ?tail = 6" by simp
  have "read_bytes (write_bytes (write_bytes ?m1 8270 ?data) 8280 ?tail) 8280 (length ?tail) = ?tail"
    by (rule read_bytes_write_bytes)
  then have rd: "read_bytes (write_bytes (write_bytes ?m1 8270 ?data) 8280 ?tail) 8280 6 = ?tail"
    by (simp only: l6)
  from step rd trailing_boundary_bytes show ?thesis
    by (simp del: write_bytes.simps)
qed

end
